theory Spec2Isabelle
  imports Complex_Main "HOL-Library.Word"
begin

section \<open>JavaScript numbers and typed-array reads\<close>

text \<open>
  A value of the decoder: a finite number \<open>Fin r\<close>, one of the two infinities, \<open>NaN\<close>, or
  \<open>undefined\<close>, which a read past the end of a typed array yields and which every
  arithmetic operation and comparison first converts to \<open>NaN\<close>. A \<open>Float32Array\<close> holds
  any of the first four. A finite value is a real number: the rounding of IEEE doubles
  and of \<open>Float32Array\<close> stores, the overflow of a finite result to an infinity, and the
  sign of zero are not part of the model (a division by zero takes the zero to be \<open>+0\<close>).
\<close>

datatype number = Fin real | PosInf | NegInf | NaN | Undefined

definition is_nan :: "number \<Rightarrow> bool" where
  "is_nan a \<longleftrightarrow> a = NaN \<or> a = Undefined"

text \<open>The infinity of the sign of \<open>s\<close>, and \<open>NaN\<close> when \<open>s\<close> is 0: an infinity times \<open>s\<close>, or
  \<open>s\<close> divided by 0.\<close>

definition inf_of_sign :: "real \<Rightarrow> number" where
  "inf_of_sign s = (if 0 < s then PosInf else if s < 0 then NegInf else NaN)"

fun js_mul :: "number \<Rightarrow> number \<Rightarrow> number" where
  "js_mul (Fin x) (Fin y) = Fin (x * y)"
| "js_mul (Fin x) PosInf = inf_of_sign x"
| "js_mul (Fin x) NegInf = inf_of_sign (- x)"
| "js_mul PosInf (Fin y) = inf_of_sign y"
| "js_mul NegInf (Fin y) = inf_of_sign (- y)"
| "js_mul PosInf PosInf = PosInf"
| "js_mul NegInf NegInf = PosInf"
| "js_mul PosInf NegInf = NegInf"
| "js_mul NegInf PosInf = NegInf"
| "js_mul a b = NaN"

fun js_sub :: "number \<Rightarrow> number \<Rightarrow> number" where
  "js_sub (Fin x) (Fin y) = Fin (x - y)"
| "js_sub (Fin x) PosInf = NegInf"
| "js_sub (Fin x) NegInf = PosInf"
| "js_sub PosInf (Fin y) = PosInf"
| "js_sub PosInf NegInf = PosInf"
| "js_sub NegInf (Fin y) = NegInf"
| "js_sub NegInf PosInf = NegInf"
| "js_sub a b = NaN"

fun js_div :: "number \<Rightarrow> number \<Rightarrow> number" where
  "js_div (Fin x) (Fin y) = (if y = 0 then inf_of_sign x else Fin (x / y))"
| "js_div (Fin x) PosInf = Fin 0"
| "js_div (Fin x) NegInf = Fin 0"
| "js_div PosInf (Fin y) = (if y < 0 then NegInf else PosInf)"
| "js_div NegInf (Fin y) = (if y < 0 then PosInf else NegInf)"
| "js_div a b = NaN"

text \<open>\<open>a < b\<close>: false as soon as an operand is \<open>NaN\<close> or \<open>undefined\<close>.\<close>

fun js_lt :: "number \<Rightarrow> number \<Rightarrow> bool" where
  "js_lt (Fin x) (Fin y) = (x < y)"
| "js_lt (Fin x) PosInf = True"
| "js_lt NegInf (Fin y) = True"
| "js_lt NegInf PosInf = True"
| "js_lt a b = False"

definition js_gt :: "number \<Rightarrow> number \<Rightarrow> bool" where
  "js_gt a b = js_lt b a"

text \<open>\<open>a >= b\<close>: false as soon as an operand is \<open>NaN\<close> or \<open>undefined\<close>, and otherwise the
  negation of \<open>a < b\<close>.\<close>

definition js_ge :: "number \<Rightarrow> number \<Rightarrow> bool" where
  "js_ge a b \<longleftrightarrow> \<not> is_nan a \<and> \<not> is_nan b \<and> \<not> js_lt a b"

text \<open>\<open>Math.round\<close>: the nearest integer, a half rounded towards positive infinity; an
  infinity is kept and \<open>undefined\<close> becomes \<open>NaN\<close>.\<close>

fun js_round :: "number \<Rightarrow> number" where
  "js_round (Fin x) = Fin (of_int \<lfloor>x + 1 / 2\<rfloor>)"
| "js_round Undefined = NaN"
| "js_round a = a"

text \<open>\<open>Math.min\<close> of two values.\<close>

definition js_min :: "number \<Rightarrow> number \<Rightarrow> number" where
  "js_min a b = (if is_nan a \<or> is_nan b then NaN else if js_lt b a then b else a)"

text \<open>\<open>data[i]\<close> on a typed array or an array: \<open>undefined\<close> when \<open>i\<close> is not an index of it.\<close>

definition rd :: "number list \<Rightarrow> nat \<Rightarrow> number" where
  "rd xs i = (if i < length xs then xs ! i else Undefined)"

section \<open>Data model\<close>

text \<open>\<open>ort.Tensor\<close>, as far as the decoder reads it: the flat \<open>Float32Array\<close> and the
  shape.\<close>

record ort_tensor =
  data :: "number list"
  dims :: "nat list"

text \<open>\<open>BirdNestDetection\<close> of \<open>src/types/index.ts\<close>. \<open>class_name\<close> is \<open>None\<close> when the
  lookup in the class table yields \<open>undefined\<close>.\<close>

record BirdNestDetection =
  bbox :: "number \<times> number \<times> number \<times> number"
  score :: number
  class_id :: number
  class_name :: "string option"

definition classNames :: "string list" where
  "classNames = [''birdnest'']"

text \<open>\<open>classNames[k]\<close>: the entry when \<open>k\<close> is an integer that is an index of the table,
  and \<open>undefined\<close> for every other value.\<close>

fun classNames_at :: "number \<Rightarrow> string option" where
  "classNames_at (Fin x) =
     (if 0 \<le> x \<and> x = of_int \<lfloor>x\<rfloor> \<and> nat \<lfloor>x\<rfloor> < length classNames
      then Some (classNames ! nat \<lfloor>x\<rfloor>) else None)"
| "classNames_at a = None"

section \<open>Loops\<close>

text \<open>\<open>for (let i = i0; i < n; i++) body\<close>, threading the variables the body updates.\<close>

function for_loop :: "nat \<Rightarrow> nat \<Rightarrow> (nat \<Rightarrow> 's \<Rightarrow> 's) \<Rightarrow> 's \<Rightarrow> 's" where
  "for_loop i n body s = (if i < n then for_loop (i + 1) n body (body i s) else s)"
  by pat_completeness auto
termination
  by (relation "measure (\<lambda>(i, n, body, s). n - i)") auto

declare for_loop.simps [simp del]

text \<open>\<open>for (let i = i0; i < n; i += 6) body\<close>, the stride of the record heuristic.\<close>

function for_loop6 :: "nat \<Rightarrow> nat \<Rightarrow> (nat \<Rightarrow> 's \<Rightarrow> 's) \<Rightarrow> 's \<Rightarrow> 's" where
  "for_loop6 i n body s = (if i < n then for_loop6 (i + 6) n body (body i s) else s)"
  by pat_completeness auto
termination
  by (relation "measure (\<lambda>(i, n, body, s). n - i)") auto

declare for_loop6.simps [simp del]

text \<open>\<open>detections.push(d)\<close> when the body reaches it, nothing on \<open>continue\<close> or a failed test.\<close>

definition push :: "'a option \<Rightarrow> 'a list \<Rightarrow> 'a list" where
  "push r dets = (case r of None \<Rightarrow> dets | Some d \<Rightarrow> dets @ [d])"

section \<open>The decoder\<close>

text \<open>
  The four lines every branch repeats: centre to top-left corner, then the scale to the
  original image.
\<close>

definition scaled_bbox ::
  "number \<Rightarrow> number \<Rightarrow> number \<Rightarrow> number \<Rightarrow> number \<Rightarrow> number \<Rightarrow>
   number \<times> number \<times> number \<times> number" where
  "scaled_bbox x y width height xScale yScale =
     (let scaledX = js_mul (js_sub x (js_div width (Fin 2))) xScale;
          scaledY = js_mul (js_sub y (js_div height (Fin 2))) yScale;
          scaledWidth = js_mul width xScale;
          scaledHeight = js_mul height yScale
      in (scaledX, scaledY, scaledWidth, scaledHeight))"

text \<open>
  The search for the class of highest probability, over the class table:
  \<open>maxClassProb\<close> and \<open>classId\<close> start at 0, and \<open>classProbAt c\<close> is the read the
  branch makes for class \<open>c\<close>.
\<close>

definition best_class :: "(nat \<Rightarrow> number) \<Rightarrow> number \<times> nat" where
  "best_class classProbAt =
     for_loop 0 (length classNames)
       (\<lambda>c (maxClassProb, classId).
          let classProb = classProbAt c
          in if js_gt classProb maxClassProb then (classProb, c) else (maxClassProb, classId))
       (Fin 0, 0)"

subsection \<open>Format 1: rows, \<open>[1, num_detections, 5 + num_classes]\<close>\<close>

text \<open>The body of the loop over the rows; \<open>None\<close> is a \<open>continue\<close>. The text of this
  branch is the same in \<open>src/workers/modelWorker.ts\<close> and in the inference utility.\<close>

definition row_detection ::
  "number list \<Rightarrow> number \<Rightarrow> number \<Rightarrow> number \<Rightarrow> nat \<Rightarrow> nat \<Rightarrow> BirdNestDetection option" where
  "row_detection dat confidenceThreshold xScale yScale detectionSize i =
     (let baseIndex = i * detectionSize;
          x = rd dat baseIndex;
          y = rd dat (baseIndex + 1);
          width = rd dat (baseIndex + 2);
          height = rd dat (baseIndex + 3);
          confidence = rd dat (baseIndex + 4)
      in if js_lt confidence confidenceThreshold then None
         else
           let (maxClassProb, classId) = best_class (\<lambda>c. rd dat (baseIndex + 5 + c));
               score = js_mul confidence maxClassProb
           in if js_lt score confidenceThreshold then None
              else Some \<lparr>bbox = scaled_bbox x y width height xScale yScale,
                         score = score,
                         class_id = Fin (real classId),
                         class_name = classNames_at (Fin (real classId))\<rparr>)"

definition decode_rows ::
  "number list \<Rightarrow> number \<Rightarrow> number \<Rightarrow> number \<Rightarrow> nat \<Rightarrow> nat \<Rightarrow> BirdNestDetection list" where
  "decode_rows dat confidenceThreshold xScale yScale numDetections detectionSize =
     for_loop 0 numDetections
       (\<lambda>i. push (row_detection dat confidenceThreshold xScale yScale detectionSize i)) []"

subsection \<open>Format 2: grid, \<open>[1, channels, gridHeight, gridWidth]\<close>\<close>

definition getIndexFrom4D :: "nat list \<Rightarrow> nat \<Rightarrow> nat \<Rightarrow> nat \<Rightarrow> nat \<Rightarrow> nat" where
  "getIndexFrom4D dimensions n c h w =
     n * dimensions ! 1 * dimensions ! 2 * dimensions ! 3 +
     c * dimensions ! 2 * dimensions ! 3 +
     h * dimensions ! 3 +
     w"

definition cell_detection ::
  "number list \<Rightarrow> nat list \<Rightarrow> number \<Rightarrow> number \<Rightarrow> number \<Rightarrow> nat \<Rightarrow> nat \<Rightarrow>
   BirdNestDetection option" where
  "cell_detection dat dimensions confidenceThreshold xScale yScale cy cx =
     (let boxOffset = 0; confidenceOffset = 4; classOffset = 5;
          confidenceIndex = getIndexFrom4D dimensions 0 confidenceOffset cy cx;
          confidence = rd dat confidenceIndex
      in if js_lt confidence confidenceThreshold then None
         else
           let (maxClassProb, classId) =
                 best_class (\<lambda>c. rd dat (getIndexFrom4D dimensions 0 (classOffset + c) cy cx));
               score = js_mul confidence maxClassProb
           in if js_lt score confidenceThreshold then None
              else
                let xIndex = getIndexFrom4D dimensions 0 boxOffset cy cx;
                    yIndex = getIndexFrom4D dimensions 0 (boxOffset + 1) cy cx;
                    wIndex = getIndexFrom4D dimensions 0 (boxOffset + 2) cy cx;
                    hIndex = getIndexFrom4D dimensions 0 (boxOffset + 3) cy cx;
                    x = rd dat xIndex;
                    y = rd dat yIndex;
                    width = rd dat wIndex;
                    height = rd dat hIndex
                in Some \<lparr>bbox = scaled_bbox x y width height xScale yScale,
                          score = score,
                          class_id = Fin (real classId),
                          class_name = classNames_at (Fin (real classId))\<rparr>)"

definition decode_grid ::
  "number list \<Rightarrow> nat list \<Rightarrow> number \<Rightarrow> number \<Rightarrow> number \<Rightarrow> BirdNestDetection list" where
  "decode_grid dat dimensions confidenceThreshold xScale yScale =
     (let gridHeight = dimensions ! 2; gridWidth = dimensions ! 3
      in for_loop 0 gridHeight
           (\<lambda>cy. for_loop 0 gridWidth
              (\<lambda>cx. push (cell_detection dat dimensions confidenceThreshold xScale yScale cy cx)))
           [])"

subsection \<open>Format 3: direct output, \<open>[1, 84, num_boxes]\<close>\<close>

definition column_detection ::
  "number list \<Rightarrow> number \<Rightarrow> number \<Rightarrow> number \<Rightarrow> nat \<Rightarrow> nat \<Rightarrow> BirdNestDetection option" where
  "column_detection dat confidenceThreshold xScale yScale numBoxes i =
     (let x = rd dat (0 * numBoxes + i);
          y = rd dat (1 * numBoxes + i);
          width = rd dat (2 * numBoxes + i);
          height = rd dat (3 * numBoxes + i);
          confidence = rd dat (4 * numBoxes + i)
      in if js_lt confidence confidenceThreshold then None
         else
           let score = confidence
           in Some \<lparr>bbox = scaled_bbox x y width height xScale yScale,
                     score = score,
                     class_id = Fin 0,
                     class_name = classNames_at (Fin 0)\<rparr>)"

definition decode_columns ::
  "number list \<Rightarrow> number \<Rightarrow> number \<Rightarrow> number \<Rightarrow> nat \<Rightarrow> BirdNestDetection list" where
  "decode_columns dat confidenceThreshold xScale yScale numBoxes =
     for_loop 0 numBoxes
       (\<lambda>i. push (column_detection dat confidenceThreshold xScale yScale numBoxes i)) []"

subsection \<open>The record heuristic: \<open>[x, y, w, h, conf, class_id]\<close> in strides of 6\<close>

text \<open>
  The body under the test that a whole record is left. Every read of it is below
  \<open>flatData.length\<close> by that test, so the reads are plain list accesses.
\<close>

definition record_detection ::
  "number list \<Rightarrow> number \<Rightarrow> number \<Rightarrow> number \<Rightarrow> nat \<Rightarrow> BirdNestDetection option" where
  "record_detection flatData confidenceThreshold xScale yScale i =
     (let confidence = flatData ! (i + 4)
      in if js_ge confidence confidenceThreshold then
           let x = flatData ! i;
               y = flatData ! (i + 1);
               width = flatData ! (i + 2);
               height = flatData ! (i + 3);
               classId = js_round (flatData ! (i + 5))
           in Some \<lparr>bbox = scaled_bbox x y width height xScale yScale,
                     score = confidence,
                     class_id = classId,
                     class_name =
                       classNames_at (js_min classId (Fin (real (length classNames) - 1)))\<rparr>
         else None)"

text \<open>The inference utility: \<open>if (i + 5 < flatData.length)\<close>.\<close>

definition decode_records ::
  "number list \<Rightarrow> number \<Rightarrow> number \<Rightarrow> number \<Rightarrow> BirdNestDetection list" where
  "decode_records dat confidenceThreshold xScale yScale =
     (let flatData = dat
      in for_loop6 0 (length flatData)
           (\<lambda>i batchDetections.
              if i + 5 < length flatData
              then push (record_detection flatData confidenceThreshold xScale yScale i)
                     batchDetections
              else batchDetections)
           [])"

text \<open>The worker: \<open>if (i + boxSize <= flatData.length)\<close> with \<open>boxSize = 6\<close>.\<close>

definition worker_decode_records ::
  "number list \<Rightarrow> number \<Rightarrow> number \<Rightarrow> number \<Rightarrow> BirdNestDetection list" where
  "worker_decode_records dat confidenceThreshold xScale yScale =
     (let flatData = dat; boxSize = 6
      in for_loop6 0 (length flatData)
           (\<lambda>i detections.
              if i + boxSize \<le> length flatData
              then push (record_detection flatData confidenceThreshold xScale yScale i) detections
              else detections)
           [])"

subsection \<open>The worker's batch branch: \<open>[batch_size, num_detections, xywh + conf + classes]\<close>\<close>

definition batch_detection ::
  "number list \<Rightarrow> number \<Rightarrow> number \<Rightarrow> number \<Rightarrow> nat \<Rightarrow> nat \<Rightarrow> nat \<Rightarrow> nat \<Rightarrow>
   BirdNestDetection option" where
  "batch_detection dat confidenceThreshold xScale yScale numDetections elementsPerDetection b i =
     (let baseIdx = b * numDetections * elementsPerDetection + i * elementsPerDetection;
          confidence = rd dat (baseIdx + 4)
      in if js_ge confidence confidenceThreshold then
           let x = rd dat baseIdx;
               y = rd dat (baseIdx + 1);
               width = rd dat (baseIdx + 2);
               height = rd dat (baseIdx + 3);
               (maxClassProb, classId) =
                 for_loop 0 (length classNames)
                   (\<lambda>c (maxClassProb, classId).
                      let classIdx = baseIdx + 5 + c
                      in if classIdx < baseIdx + elementsPerDetection then
                           let classProb = rd dat classIdx
                           in if js_gt classProb maxClassProb then (classProb, c)
                              else (maxClassProb, classId)
                         else (maxClassProb, classId))
                   (Fin 0, 0);
               score = js_mul confidence (if js_gt maxClassProb (Fin 0) then maxClassProb else Fin 1)
           in if js_lt score confidenceThreshold then None
              else Some \<lparr>bbox = scaled_bbox x y width height xScale yScale,
                         score = score,
                         class_id = Fin (real classId),
                         class_name = classNames_at (Fin (real classId))\<rparr>
         else None)"

definition decode_batches ::
  "number list \<Rightarrow> number \<Rightarrow> number \<Rightarrow> number \<Rightarrow> nat \<Rightarrow> nat \<Rightarrow> nat \<Rightarrow> BirdNestDetection list" where
  "decode_batches dat confidenceThreshold xScale yScale batchSize numDetections elementsPerDetection =
     for_loop 0 batchSize
       (\<lambda>b. for_loop 0 numDetections
          (\<lambda>i. push (batch_detection dat confidenceThreshold xScale yScale
                        numDetections elementsPerDetection b i)))
       []"

subsection \<open>\<open>processYoloOutput\<close>\<close>

text \<open>
  The repository holds two decoders of this name. \<open>processYoloOutput\<close> below is the one
  of the inference utility, with its three formats and the record heuristic as the last
  resort; none of its statements throws, and the handler of its only \<open>try\<close> logs and
  falls through to \<open>return detections\<close>.
\<close>

definition processYoloOutput ::
  "ort_tensor \<Rightarrow> number \<Rightarrow> number \<Rightarrow> number \<Rightarrow> number \<Rightarrow> number \<Rightarrow> BirdNestDetection list" where
  "processYoloOutput outputTensor originalWidth originalHeight modelWidth modelHeight
       confidenceThreshold =
     (let dat = data outputTensor;
          dimensions = dims outputTensor;
          xScale = js_div originalWidth modelWidth;
          yScale = js_div originalHeight modelHeight
      in if length dimensions = 3 \<and> dimensions ! 2 > 5 then
           decode_rows dat confidenceThreshold xScale yScale (dimensions ! 1) (dimensions ! 2)
         else if length dimensions = 4 then
           decode_grid dat dimensions confidenceThreshold xScale yScale
         else if length dimensions = 3 \<and> dimensions ! 1 = 84 then
           decode_columns dat confidenceThreshold xScale yScale (dimensions ! 2)
         else
           let batchDetections = decode_records dat confidenceThreshold xScale yScale
           in if length batchDetections > 0 then batchDetections else [])"

text \<open>
  \<open>worker_processYoloOutput\<close> is the decoder of \<open>src/workers/modelWorker.ts\<close>: format 1,
  then the record heuristic for a shape of length 1 or of the form \<open>[1, n]\<close>, then the
  batch branch for any other shape of length 3, and no detection for any other shape.
\<close>

definition worker_processYoloOutput ::
  "ort_tensor \<Rightarrow> number \<Rightarrow> number \<Rightarrow> number \<Rightarrow> number \<Rightarrow> number \<Rightarrow> BirdNestDetection list" where
  "worker_processYoloOutput outputTensor originalWidth originalHeight modelWidth modelHeight
       confidenceThreshold =
     (let dat = data outputTensor;
          dimensions = dims outputTensor;
          xScale = js_div originalWidth modelWidth;
          yScale = js_div originalHeight modelHeight
      in if length dimensions = 3 \<and> dimensions ! 2 > 5 then
           decode_rows dat confidenceThreshold xScale yScale (dimensions ! 1) (dimensions ! 2)
         else if length dimensions = 1 \<or> (length dimensions = 2 \<and> dimensions ! 0 = 1) then
           worker_decode_records dat confidenceThreshold xScale yScale
         else if length dimensions = 3 then
           decode_batches dat confidenceThreshold xScale yScale
             (dimensions ! 0) (dimensions ! 1) (dimensions ! 2)
         else [])"


definition worker_processYoloOutput_call ::
  "ort_tensor \<Rightarrow> number \<Rightarrow> number \<Rightarrow> number \<Rightarrow> number \<Rightarrow> number \<Rightarrow>
   string + BirdNestDetection list" where
  "worker_processYoloOutput_call outputTensor originalWidth originalHeight modelWidth modelHeight
       confidenceThreshold =
     Inr (worker_processYoloOutput outputTensor originalWidth originalHeight modelWidth
            modelHeight confidenceThreshold)"

section \<open>The preprocessor\<close>

text \<open>
  \<open>preprocessImage\<close> of the image utility. The browser's part is a parameter: whether
  the image loads (\<open>onload\<close> or \<open>onerror\<close>), its natural size, whether the canvas gives a
  2d context, and the RGBA bytes \<open>getImageData\<close> returns once the image is drawn at the
  model's size.
\<close>

type_synonym byte = "8 word"

record loaded_image =
  naturalWidth :: nat
  naturalHeight :: nat
  imagePixels :: "nat \<Rightarrow> nat \<Rightarrow> byte list"

datatype image_load = LoadError | Loaded loaded_image

record PreprocessedImageData =
  tensor :: "number list"
  width :: nat
  height :: nat
  originalWidth :: nat
  originalHeight :: nat

text \<open>\<open>data[i]\<close> on the \<open>Uint8ClampedArray\<close> of the canvas.\<close>

definition byte_at :: "byte list \<Rightarrow> nat \<Rightarrow> number" where
  "byte_at px i = (if i < length px then Fin (real (unat (px ! i))) else Undefined)"

text \<open>The body of the loops over the pixels. A store into a typed array outside its
  range does nothing, as \<open>list_update\<close> does.\<close>

definition write_pixel ::
  "byte list \<Rightarrow> nat \<Rightarrow> nat \<Rightarrow> nat \<Rightarrow> nat \<Rightarrow> number list \<Rightarrow> number list" where
  "write_pixel px modelWidth modelHeight y x buf =
     (let pixelIndex = (y * modelWidth + x) * 4;
          r = js_div (byte_at px pixelIndex) (Fin 255);
          g = js_div (byte_at px (pixelIndex + 1)) (Fin 255);
          b = js_div (byte_at px (pixelIndex + 2)) (Fin 255)
      in buf[0 * modelHeight * modelWidth + y * modelWidth + x := r,
             1 * modelHeight * modelWidth + y * modelWidth + x := g,
             2 * modelHeight * modelWidth + y * modelWidth + x := b])"

definition preprocessImage ::
  "image_load \<Rightarrow> bool \<Rightarrow> nat \<Rightarrow> nat \<Rightarrow> string + PreprocessedImageData" where
  "preprocessImage loaded has_context modelWidth modelHeight =
     (case loaded of
        LoadError \<Rightarrow> Inl ''Failed to load image''
      | Loaded img \<Rightarrow>
          if \<not> has_context then Inl ''Could not get canvas context''
          else
            let px = imagePixels img modelWidth modelHeight;
                buf = for_loop 0 modelHeight
                        (\<lambda>y. for_loop 0 modelWidth
                           (\<lambda>x. write_pixel px modelWidth modelHeight y x))
                        (replicate (3 * modelHeight * modelWidth) (Fin 0))
            in Inr \<lparr>tensor = buf,
                     width = modelWidth,
                     height = modelHeight,
                     originalWidth = naturalWidth img,
                     originalHeight = naturalHeight img\<rparr>)"

section \<open>The worker\<close>

text \<open>
  The ONNX runtime is a parameter: \<open>create\<close> resolves to a session or rejects with a
  message, and a session's \<open>run\<close> takes the name and the tensor of the single feed, its
  buffer and its shape, and resolves to the named outputs or rejects. The runtime's own
  check of the buffer against the shape, made when the tensor is built on the line
  before, is part of \<open>run\<close>: either failure leaves \<open>runInference\<close> as the same thrown
  error. A threshold a message does not carry is \<open>undefined\<close>.
\<close>

record InferenceSession =
  inputNames :: "string list"
  outputNames :: "string list"
  run :: "string option \<Rightarrow> number list \<times> nat list \<Rightarrow> string + (string option \<Rightarrow> ort_tensor option)"

record WorkerMessageIn =
  msg_type :: string
  modelUrl :: "string option"
  imageData :: "PreprocessedImageData option"
  confidenceThreshold :: number
  iouThreshold :: number

datatype WorkerMessageOut =
  MODEL_LOADED
  | INFERENCE_RESULT "BirdNestDetection list"
  | ERROR string

text \<open>\<open>names[0]\<close>: \<open>undefined\<close> on an empty array.\<close>

definition first_name :: "string list \<Rightarrow> string option" where
  "first_name names = (case names of [] \<Rightarrow> None | n # _ \<Rightarrow> Some n)"

text \<open>\<open>v || d\<close> on a number: \<open>undefined\<close>, \<open>NaN\<close> and 0 are falsy.\<close>

definition or_default :: "number \<Rightarrow> number \<Rightarrow> number" where
  "or_default v d = (if is_nan v \<or> v = Fin 0 then d else v)"

definition worker_runInference ::
  "InferenceSession \<Rightarrow> PreprocessedImageData \<Rightarrow> number \<Rightarrow> number \<Rightarrow>
   string + BirdNestDetection list" where
  "worker_runInference sess img thr iou =
     (let inputTensor = (tensor img, [1, 3, height img, width img]);
          inputName = first_name (inputNames sess)
      in case run sess inputName inputTensor of
           Inl e \<Rightarrow> Inl e
         | Inr results \<Rightarrow>
             let outputName = first_name (outputNames sess);
                 output = results outputName
             in (case output of
                   None \<Rightarrow> Inl ''Model output is undefined''
                 | Some out \<Rightarrow>
                     worker_processYoloOutput_call out
                       (Fin (real (originalWidth img))) (Fin (real (originalHeight img)))
                       (Fin (real (width img))) (Fin (real (height img))) thr))"

text \<open>
  \<open>self.onmessage\<close>: the module variable \<open>session\<close> is the state, and every path ends in
  exactly one \<open>postMessage\<close>; a \<open>throw\<close> inside the \<open>try\<close> is the \<open>ERROR\<close> message of the
  handler.
\<close>

definition onmessage ::
  "(string \<Rightarrow> string + InferenceSession) \<Rightarrow> InferenceSession option \<Rightarrow> WorkerMessageIn \<Rightarrow>
   InferenceSession option \<times> WorkerMessageOut" where
  "onmessage create session ev =
     (if msg_type ev = ''LOAD_MODEL'' then
        (case modelUrl ev of
           None \<Rightarrow> (session, ERROR ''Model URL is required'')
         | Some url \<Rightarrow>
             if url = [] then (session, ERROR ''Model URL is required'')
             else (case create url of
                     Inl e \<Rightarrow> (session, ERROR e)
                   | Inr s \<Rightarrow> (Some s, MODEL_LOADED)))
      else if msg_type ev = ''RUN_INFERENCE'' then
        (case session of
           None \<Rightarrow> (session, ERROR ''Model is not loaded'')
         | Some s \<Rightarrow>
             (case imageData ev of
                None \<Rightarrow> (session, ERROR ''Image data is required'')
              | Some img \<Rightarrow>
                  let thr = or_default (confidenceThreshold ev) (Fin (25 / 100));
                      iou = or_default (iouThreshold ev) (Fin (45 / 100))
                  in (case worker_runInference s img thr iou of
                        Inl e \<Rightarrow> (session, ERROR e)
                      | Inr detections \<Rightarrow> (session, INFERENCE_RESULT detections))))
      else (session, ERROR (''Unknown message type: '' @ msg_type ev)))"

text \<open>
  The messages of the main thread, handled one after the other from the state the
  module starts in or has reached; the result is the final \<open>session\<close> and the replies in
  order.
\<close>

fun handle_all ::
  "(string \<Rightarrow> string + InferenceSession) \<Rightarrow> InferenceSession option \<Rightarrow> WorkerMessageIn list \<Rightarrow>
   InferenceSession option \<times> WorkerMessageOut list" where
  "handle_all create session [] = (session, [])"
| "handle_all create session (ev # evs) =
     (let (session', reply) = onmessage create session ev;
          (final, replies) = handle_all create session' evs
      in (final, reply # replies))"

section \<open>Notions of the specification\<close>

text \<open>
  The box the specification asks for, from a raw centre box \<open>(cx, cy, w, h)\<close> of finite
  values: corner \<open>(cx - w/2, cy - h/2)\<close> and size \<open>(w, h)\<close>, scaled by \<open>origW / modelW\<close> and
  \<open>origH / modelH\<close>.
\<close>

definition emitted_box ::
  "real \<Rightarrow> real \<Rightarrow> real \<Rightarrow> real \<Rightarrow> real \<times> real \<times> real \<times> real \<Rightarrow>
   number \<times> number \<times> number \<times> number" where
  "emitted_box origW origH modelW modelH raw =
     (case raw of (cx, cy, w, h) \<Rightarrow>
        (Fin ((cx - w / 2) * origW / modelW), Fin ((cy - h / 2) * origH / modelH),
         Fin (w * origW / modelW), Fin (h * origH / modelH)))"

text \<open>The cells of a grid of \<open>H\<close> rows and \<open>W\<close> columns, row by row.\<close>

definition grid_cells :: "nat \<Rightarrow> nat \<Rightarrow> (nat \<times> nat) list" where
  "grid_cells H W = List.product [0..<H] [0..<W]"

text \<open>
  The candidate of the cell \<open>(row, col)\<close> of a grid of \<open>H\<close> by \<open>W\<close> cells over a buffer \<open>xs\<close>
  of finite values: channel \<open>ch\<close> of the cell is the value at index
  \<open>ch * H * W + row * W + col\<close>, channels 0 to 3 are the box, channel 4 is the
  objectness, and channel 5 is the score of the one class of the class table. No
  channel above 5 takes part. The candidate is dropped when the objectness, or its
  product with the class score (taken as 0 when it is not positive), is below the
  threshold.
\<close>

definition grid_candidate ::
  "real list \<Rightarrow> nat \<Rightarrow> nat \<Rightarrow> real \<Rightarrow> real \<Rightarrow> real \<Rightarrow> real \<Rightarrow> real \<Rightarrow> nat \<Rightarrow> nat \<Rightarrow>
   BirdNestDetection option" where
  "grid_candidate xs H W origW origH modelW modelH thr row col =
     (let chan = (\<lambda>ch. xs ! (ch * H * W + row * W + col));
          objectnessValue = chan 4;
          classScore = chan 5;
          combined = objectnessValue * max 0 classScore
      in if objectnessValue < thr \<or> combined < thr then None
         else Some \<lparr>bbox = emitted_box origW origH modelW modelH (chan 0, chan 1, chan 2, chan 3),
                    score = Fin combined,
                    class_id = Fin 0,
                    class_name = Some ''birdnest''\<rparr>)"

text \<open>
  The slots of one candidate in the buffer: its box at \<open>box_base\<close>,
  \<open>box_base + box_stride\<close>, \<open>box_base + 2 * box_stride\<close>, \<open>box_base + 3 * box_stride\<close>
  (\<open>cx\<close>, \<open>cy\<close>, \<open>w\<close>, \<open>h\<close>), its objectness, the class score the decoders read, if the
  layout has one, and the class identifier, if the layout has one.
\<close>

record slots =
  box_base :: nat
  box_stride :: nat
  objectness_at :: nat
  class_score_at :: "nat option"
  class_id_at :: "nat option"

text \<open>
  The layouts of a buffer and the candidates of each, in the order of decoding:
  \<open>Rows N K\<close>, \<open>N\<close> rows of \<open>K\<close> values; \<open>Grid H W\<close>, channel planes of \<open>H\<close> by \<open>W\<close> cells;
  \<open>Columns N\<close>, channel rows of \<open>N\<close> boxes; \<open>Records n\<close>, \<open>n\<close> records of 6 values;
  \<open>Batches B N\<close>, \<open>B\<close> batches of \<open>N\<close> records of 5 values.
\<close>

datatype layout = Rows nat nat | Grid nat nat | Columns nat | Records nat | Batches nat nat

fun layout_slots :: "layout \<Rightarrow> slots list" where
  "layout_slots (Rows N K) =
     map (\<lambda>i. \<lparr>box_base = i * K, box_stride = 1, objectness_at = i * K + 4,
               class_score_at = Some (i * K + 5), class_id_at = None\<rparr>) [0..<N]"
| "layout_slots (Grid H W) =
     map (\<lambda>(row, col). \<lparr>box_base = row * W + col, box_stride = H * W,
                         objectness_at = 4 * H * W + row * W + col,
                         class_score_at = Some (5 * H * W + row * W + col),
                         class_id_at = None\<rparr>) (grid_cells H W)"
| "layout_slots (Columns N) =
     map (\<lambda>i. \<lparr>box_base = i, box_stride = N, objectness_at = 4 * N + i,
               class_score_at = None, class_id_at = None\<rparr>) [0..<N]"
| "layout_slots (Records n) =
     map (\<lambda>m. \<lparr>box_base = 6 * m, box_stride = 1, objectness_at = 6 * m + 4,
               class_score_at = None, class_id_at = Some (6 * m + 5)\<rparr>) [0..<n]"
| "layout_slots (Batches B N) =
     map (\<lambda>(b, i). \<lparr>box_base = b * N * 5 + i * 5, box_stride = 1,
                    objectness_at = b * N * 5 + i * 5 + 4,
                    class_score_at = None, class_id_at = None\<rparr>) (List.product [0..<B] [0..<N])"

text \<open>
  What a candidate of slots \<open>s\<close> holds in a buffer \<open>xs\<close> of finite values: the raw centre
  box, the objectness, the class probability (the class score when it is positive and 0
  otherwise, and 1 in a layout without class score), the class (the rounded class
  identifier, and 0 in a layout without one), and the combined score. The candidate
  clears a threshold when neither the objectness nor the combined score is below it.
\<close>

definition raw_box :: "real list \<Rightarrow> slots \<Rightarrow> real \<times> real \<times> real \<times> real" where
  "raw_box xs s =
     (xs ! box_base s, xs ! (box_base s + box_stride s), xs ! (box_base s + 2 * box_stride s),
      xs ! (box_base s + 3 * box_stride s))"

definition objectness :: "real list \<Rightarrow> slots \<Rightarrow> real" where
  "objectness xs s = xs ! objectness_at s"

definition class_probability :: "real list \<Rightarrow> slots \<Rightarrow> real" where
  "class_probability xs s = (case class_score_at s of None \<Rightarrow> 1 | Some k \<Rightarrow> max 0 (xs ! k))"

definition class_of :: "real list \<Rightarrow> slots \<Rightarrow> int" where
  "class_of xs s = (case class_id_at s of None \<Rightarrow> 0 | Some k \<Rightarrow> \<lfloor>xs ! k + 1 / 2\<rfloor>)"

definition combined_score :: "real list \<Rightarrow> slots \<Rightarrow> real" where
  "combined_score xs s = objectness xs s * class_probability xs s"

definition cleared :: "real \<Rightarrow> real list \<Rightarrow> slots \<Rightarrow> bool" where
  "cleared thr xs s \<longleftrightarrow> thr \<le> objectness xs s \<and> thr \<le> combined_score xs s"

text \<open>
  The detection both decoders build for a candidate of slots \<open>s\<close> in a buffer \<open>xs\<close> of
  finite values, with the scales they computed.
\<close>

definition slots_detection :: "number \<Rightarrow> number \<Rightarrow> real list \<Rightarrow> slots \<Rightarrow> BirdNestDetection" where
  "slots_detection xScale yScale xs s =
     (case raw_box xs s of (cx, cy, w, h) \<Rightarrow>
        \<lparr>bbox = scaled_bbox (Fin cx) (Fin cy) (Fin w) (Fin h) xScale yScale,
         score = Fin (combined_score xs s),
         class_id = Fin (of_int (class_of xs s)),
         class_name = classNames_at (js_min (Fin (of_int (class_of xs s))) (Fin 0))\<rparr>)"

text \<open>
  A tensor the runtime can hand over: the buffer holds exactly the elements of the shape,
  and the leading (batch) dimension is not 0.
\<close>

definition well_formed :: "ort_tensor \<Rightarrow> bool" where
  "well_formed t \<longleftrightarrow>
     length (data t) = prod_list (dims t) \<and> (case dims t of [] \<Rightarrow> True | b # _ \<Rightarrow> 0 < b)"

text \<open>
  When a tensor has a layout for the decoder of the inference utility. Rows: a
  well-formed shape \<open>[b, N, K]\<close> with more than 5 values per row, other than the shapes
  \<open>[b, 84, K]\<close> of the direct format. Grid: a well-formed shape \<open>[b, C, H, W]\<close> with the
  six channels of a candidate. Columns: a well-formed shape \<open>[b, 84, N]\<close> that reaches
  the branch of the direct format. Records: any shape that is none of the three
  formats, with as many records as whole groups of 6 values fit the buffer.
\<close>

fun utility_layout :: "ort_tensor \<Rightarrow> layout \<Rightarrow> bool" where
  "utility_layout t (Rows N K) \<longleftrightarrow>
     well_formed t \<and> length (dims t) = 3 \<and> dims t ! 1 = N \<and> dims t ! 2 = K \<and> 5 < K \<and> N \<noteq> 84"
| "utility_layout t (Grid H W) \<longleftrightarrow>
     well_formed t \<and> length (dims t) = 4 \<and> 6 \<le> dims t ! 1 \<and> dims t ! 2 = H \<and> dims t ! 3 = W"
| "utility_layout t (Columns N) \<longleftrightarrow>
     well_formed t \<and> length (dims t) = 3 \<and> dims t ! 1 = 84 \<and> dims t ! 2 = N \<and> N \<le> 5"
| "utility_layout t (Records n) \<longleftrightarrow>
     \<not> (length (dims t) = 3 \<and> 5 < dims t ! 2) \<and> length (dims t) \<noteq> 4 \<and>
     \<not> (length (dims t) = 3 \<and> dims t ! 1 = 84) \<and> n = length (data t) div 6"
| "utility_layout t (Batches B N) \<longleftrightarrow> False"

text \<open>
  When a tensor has a layout for the decoder of the worker. Rows: as above. Records: a
  shape of length 1, or \<open>[1, n]\<close>. Batches: a well-formed shape \<open>[B, N, 5]\<close>. The worker
  has no branch for a grid or for the direct format.
\<close>

fun worker_layout :: "ort_tensor \<Rightarrow> layout \<Rightarrow> bool" where
  "worker_layout t (Rows N K) \<longleftrightarrow>
     well_formed t \<and> length (dims t) = 3 \<and> dims t ! 1 = N \<and> dims t ! 2 = K \<and> 5 < K \<and> N \<noteq> 84"
| "worker_layout t (Records n) \<longleftrightarrow>
     (length (dims t) = 1 \<or> length (dims t) = 2 \<and> dims t ! 0 = 1) \<and> n = length (data t) div 6"
| "worker_layout t (Batches B N) \<longleftrightarrow>
     well_formed t \<and> length (dims t) = 3 \<and> dims t ! 0 = B \<and> dims t ! 1 = N \<and> dims t ! 2 = 5"
| "worker_layout t (Grid H W) \<longleftrightarrow> False"
| "worker_layout t (Columns N) \<longleftrightarrow> False"

text \<open>
  The best class probability of the specification's scoring rule: the maximum over the
  class-score slots of the candidate, and 1 when it has none.
\<close>

definition bestClassProbability :: "real list \<Rightarrow> real" where
  "bestClassProbability scores = (if scores = [] then 1 else Max (set scores))"




text \<open>
  For the preprocessor: the value every store of the pixel loops writes at index \<open>k\<close>
  of a buffer of three planes of \<open>P\<close> elements, and the invariant of the loops over a set
  \<open>S\<close> of indices already written.
\<close>

definition pixel_value :: "byte list \<Rightarrow> nat \<Rightarrow> nat \<Rightarrow> number" where
  "pixel_value px P k = js_div (byte_at px ((k mod P) * 4 + k div P)) (Fin 255)"

definition pixel_inv :: "byte list \<Rightarrow> nat \<Rightarrow> nat set \<Rightarrow> number list \<Rightarrow> bool" where
  "pixel_inv px P S buf \<longleftrightarrow>
     length buf = 3 * P \<and>
     (\<forall>v \<in> set buf. \<exists>r. v = Fin r \<and> 0 \<le> r \<and> r \<le> 1) \<and>
     (\<forall>k \<in> S. buf ! k = pixel_value px P k)"

section \<open>Loops as folds\<close>

lemma for_loop_fold: "for_loop i n body s = fold body [i..<n] s"
proof (induction i n body s rule: for_loop.induct)
  case (1 i n body s)
  show ?case
  proof (cases "i < n")
    case True
    then show ?thesis
      using 1 by (subst for_loop.simps) (simp add: upt_conv_Cons)
  next
    case False
    then show ?thesis
      by (subst for_loop.simps) simp
  qed
qed

lemma for_loop_once: "for_loop 0 (Suc 0) body s = body 0 s"
  by (simp add: for_loop_fold)

lemma push_simps [simp]: "push None dets = dets" "push (Some d) dets = dets @ [d]"
  by (simp_all add: push_def)

lemma fold_push: "fold (\<lambda>i. push (f i)) xs acc = acc @ List.map_filter f xs"
proof (induction xs arbitrary: acc)
  case Nil
  then show ?case by simp
next
  case (Cons x xs)
  then show ?case by (cases "f x") simp_all
qed

lemma for_loop_push: "for_loop i n (\<lambda>i. push (f i)) acc = acc @ List.map_filter f [i..<n]"
  by (simp add: for_loop_fold fold_push)

lemma for_loop_push2:
  "for_loop i n (\<lambda>y. for_loop j m (\<lambda>x. push (f y x))) acc =
   acc @ concat (map (\<lambda>y. List.map_filter (f y) [j..<m]) [i..<n])"
proof -
  have inner: "(\<lambda>y. for_loop j m (\<lambda>x. push (f y x))) = (\<lambda>y acc. acc @ List.map_filter (f y) [j..<m])"
    by (intro ext) (simp add: for_loop_push)
  have "fold (\<lambda>y acc. acc @ g y) ys acc = acc @ concat (map g ys)"
    for g :: "nat \<Rightarrow> 'a list" and ys acc
    by (induction ys arbitrary: acc) simp_all
  then show ?thesis
    by (simp add: for_loop_fold inner)
qed

lemma set_map_filter: "set (List.map_filter f xs) = {d. \<exists>x \<in> set xs. f x = Some d}"
  by (induction xs) (auto split: option.splits)

lemma map_filter_append:
  "List.map_filter f (xs @ ys) = List.map_filter f xs @ List.map_filter f ys"
  by (simp add: List.map_filter_def)

lemma map_filter_map: "List.map_filter f (map g xs) = List.map_filter (\<lambda>x. f (g x)) xs"
  by (induction xs) (simp_all split: option.splits)

lemma concat_map_filter_product:
  "concat (map (\<lambda>y. List.map_filter (f y) xs) ys) =
   List.map_filter (\<lambda>(y, x). f y x) (List.product ys xs)"
  by (induction ys) (simp_all add: map_filter_append map_filter_map)

lemma map_filter_slots:
  assumes "\<And>u. u \<in> set us \<Longrightarrow> f u = (if P (g u) then Some (h (g u)) else None)"
  shows "List.map_filter f us = map h (filter P (map g us))"
  using assms by (induction us) simp_all

lemma upt_Suc_shift: "[0..<Suc k] = 0 # map Suc [0..<k]"
  by (simp add: upt_conv_Cons map_Suc_upt del: upt_Suc)

text \<open>The loop of the record heuristic: one turn per whole record of 6 values.\<close>

lemma for_loop6_push:
  "for_loop6 i n (\<lambda>i acc. if i + 6 \<le> n then push (f i) acc else acc) acc =
   acc @ List.map_filter (\<lambda>m. f (i + 6 * m)) [0..<(n - i) div 6]"
proof (induction i n "\<lambda>i acc. if i + 6 \<le> n then push (f i) acc else acc" acc
       rule: for_loop6.induct)
  case (1 i n acc)
  show ?case
  proof (cases "i < n")
    case False
    then show ?thesis by (subst for_loop6.simps) simp
  next
    case True
    show ?thesis
    proof (cases "i + 6 \<le> n")
      case whole: True
      have count: "(n - i) div 6 = Suc ((n - (i + 6)) div 6)"
      proof -
        from whole obtain k where "n = i + 6 + k" using le_Suc_ex by blast
        then show ?thesis by simp
      qed
      have "for_loop6 i n (\<lambda>i acc. if i + 6 \<le> n then push (f i) acc else acc) acc =
            for_loop6 (i + 6) n (\<lambda>i acc. if i + 6 \<le> n then push (f i) acc else acc)
              (push (f i) acc)"
        using True whole by (subst for_loop6.simps) simp
      also have "\<dots> = push (f i) acc @
                   List.map_filter (\<lambda>m. f (i + 6 + 6 * m)) [0..<(n - (i + 6)) div 6]"
        using 1[OF True] whole by simp
      also have "\<dots> = acc @ List.map_filter (\<lambda>m. f (i + 6 * m)) [0..<(n - i) div 6]"
        unfolding count upt_Suc_shift
        by (cases "f i") (simp_all add: map_filter_map add.assoc)
      finally show ?thesis .
    next
      case part: False
      have none: "(n - i) div 6 = 0" "(n - (i + 6)) div 6 = 0"
        using part by simp_all
      have "for_loop6 i n (\<lambda>i acc. if i + 6 \<le> n then push (f i) acc else acc) acc =
            for_loop6 (i + 6) n (\<lambda>i acc. if i + 6 \<le> n then push (f i) acc else acc) acc"
        using True part by (subst for_loop6.simps) simp
      also have "\<dots> = acc"
        using 1[OF True] part none by simp
      finally show ?thesis using none by simp
    qed
  qed
qed

section \<open>The decoders on buffers of finite values\<close>

lemma rd_Fin: "k < length xs \<Longrightarrow> rd (map Fin xs) k = Fin (xs ! k)"
  by (simp add: rd_def)

lemma best_class_first:
  "best_class f = (if js_gt (f 0) (Fin 0) then (f 0, 0) else (Fin 0, 0))"
  by (simp add: best_class_def classNames_def for_loop_once)

lemma best_class_Fin:
  "f 0 = Fin v \<Longrightarrow> best_class f = (Fin (max 0 v), 0)"
  by (simp add: best_class_first js_gt_def max_def)

lemma classNames_at_0: "classNames_at (Fin 0) = Some ''birdnest''"
  by (simp add: classNames_def)

lemma js_min_0: "js_min (Fin 0) (Fin 0) = Fin 0"
  by (simp add: js_min_def is_nan_def)

lemma scaled_bbox_emitted:
  assumes "mW \<noteq> 0" "mH \<noteq> 0"
  shows "scaled_bbox (Fin cx) (Fin cy) (Fin w) (Fin h) (js_div (Fin oW) (Fin mW))
           (js_div (Fin oH) (Fin mH)) =
         emitted_box oW oH mW mH (cx, cy, w, h)"
  using assms by (simp add: scaled_bbox_def emitted_box_def)

lemma row_detection_slots:
  assumes "i * K + 5 < length xs"
  shows "row_detection (map Fin xs) (Fin thr) xS yS K i =
         (let s = \<lparr>box_base = i * K, box_stride = 1, objectness_at = i * K + 4,
                   class_score_at = Some (i * K + 5), class_id_at = None\<rparr>
          in if cleared thr xs s then Some (slots_detection xS yS xs s) else None)"
proof -
  have best: "best_class (\<lambda>c. rd (map Fin xs) (i * K + 5 + c)) = (Fin (max 0 (xs ! (i * K + 5))), 0)"
    using assms by (intro best_class_Fin) (simp add: rd_Fin)
  show ?thesis
    using assms
    by (simp add: row_detection_def Let_def best rd_Fin cleared_def slots_detection_def
          raw_box_def objectness_def class_probability_def class_of_def combined_score_def
          classNames_at_0 js_min_0 not_less numeral_2_eq_2 numeral_3_eq_3)
qed

lemma getIndexFrom4D_0: "getIndexFrom4D ds 0 c h w = c * ds ! 2 * ds ! 3 + h * ds ! 3 + w"
  by (simp add: getIndexFrom4D_def)

lemma cell_detection_slots:
  assumes "5 * H * W + cy * W + cx < length xs"
  shows "cell_detection (map Fin xs) [b, C, H, W] (Fin thr) xS yS cy cx =
         (let s = \<lparr>box_base = cy * W + cx, box_stride = H * W,
                   objectness_at = 4 * H * W + cy * W + cx,
                   class_score_at = Some (5 * H * W + cy * W + cx), class_id_at = None\<rparr>
          in if cleared thr xs s then Some (slots_detection xS yS xs s) else None)"
proof -
  let ?ix = "\<lambda>c. getIndexFrom4D [b, C, H, W] 0 c cy cx"
  have lt: "c * H * W + cy * W + cx < length xs" if "c \<le> 5" for c
  proof -
    have "c * H * W + cy * W + cx = c * (H * W) + (cy * W + cx)"
      by (simp add: mult.assoc)
    also have "\<dots> \<le> 5 * (H * W) + (cy * W + cx)"
      using that by (intro add_le_mono1 mult_le_mono1)
    also have "\<dots> = 5 * H * W + cy * W + cx"
      by (simp add: mult.assoc)
    also have "\<dots> < length xs" by (rule assms)
    finally show ?thesis .
  qed
  have r: "rd (map Fin xs) (?ix c) = Fin (xs ! (c * H * W + cy * W + cx))" if "c \<le> 5" for c
    using lt[OF that] by (simp add: getIndexFrom4D_0 rd_Fin)
  have r0: "rd (map Fin xs) (?ix 0) = Fin (xs ! (cy * W + cx))"
    using r[of 0] by simp
  have e: "Suc 0 * H * W + cy * W + cx = cy * W + cx + H * W"
       "2 * H * W + cy * W + cx = cy * W + cx + 2 * (H * W)"
       "3 * H * W + cy * W + cx = cy * W + cx + 3 * (H * W)"
    by simp_all
  have r1: "rd (map Fin xs) (?ix (Suc 0)) = Fin (xs ! (cy * W + cx + H * W))"
    unfolding e[symmetric] using r[of "Suc 0"] by simp
  have r2: "rd (map Fin xs) (?ix 2) = Fin (xs ! (cy * W + cx + 2 * (H * W)))"
    unfolding e[symmetric] using r[of 2] by simp
  have r3: "rd (map Fin xs) (?ix 3) = Fin (xs ! (cy * W + cx + 3 * (H * W)))"
    unfolding e[symmetric] using r[of 3] by simp
  have r2': "rd (map Fin xs) (?ix (Suc (Suc 0))) = Fin (xs ! (cy * W + cx + 2 * (H * W)))"
    using r2 by (simp only: numeral_2_eq_2)
  have r4: "rd (map Fin xs) (?ix 4) = Fin (xs ! (4 * H * W + cy * W + cx))"
    using r[of 4] by simp
  have best: "best_class (\<lambda>c. rd (map Fin xs) (?ix (5 + c))) =
              (Fin (max 0 (xs ! (5 * H * W + cy * W + cx))), 0)"
    using r[of 5] by (intro best_class_Fin) simp
  show ?thesis
    unfolding cell_detection_def Let_def
    by (simp add: r0 r1 r2 r2' r3 r4 best cleared_def slots_detection_def
          raw_box_def objectness_def class_probability_def class_of_def combined_score_def
          classNames_def js_min_0 not_less)
qed

lemma column_detection_slots:
  assumes "4 * N + i < length xs"
  shows "column_detection (map Fin xs) (Fin thr) xS yS N i =
         (let s = \<lparr>box_base = i, box_stride = N, objectness_at = 4 * N + i,
                   class_score_at = None, class_id_at = None\<rparr>
          in if cleared thr xs s then Some (slots_detection xS yS xs s) else None)"
  using assms
  by (auto simp: column_detection_def Let_def rd_Fin cleared_def slots_detection_def
        raw_box_def objectness_def class_probability_def class_of_def combined_score_def
        classNames_at_0 js_min_0 not_less add.commute)

lemma record_detection_slots:
  assumes "6 * m + 5 < length xs"
  shows "record_detection (map Fin xs) (Fin thr) xS yS (6 * m) =
         (let s = \<lparr>box_base = 6 * m, box_stride = 1, objectness_at = 6 * m + 4,
                   class_score_at = None, class_id_at = Some (6 * m + 5)\<rparr>
          in if cleared thr xs s then Some (slots_detection xS yS xs s) else None)"
  using assms
  by (auto simp: record_detection_def Let_def cleared_def slots_detection_def
        raw_box_def objectness_def class_probability_def class_of_def combined_score_def
        classNames_def js_ge_def is_nan_def not_less numeral_2_eq_2 numeral_3_eq_3)

lemma batch_detection_slots:
  assumes "b * N * 5 + i * 5 + 4 < length xs"
  shows "batch_detection (map Fin xs) (Fin thr) xS yS N 5 b i =
         (let s = \<lparr>box_base = b * N * 5 + i * 5, box_stride = 1,
                   objectness_at = b * N * 5 + i * 5 + 4,
                   class_score_at = None, class_id_at = None\<rparr>
          in if cleared thr xs s then Some (slots_detection xS yS xs s) else None)"
  using assms
  by (auto simp: batch_detection_def Let_def rd_Fin cleared_def slots_detection_def
        raw_box_def objectness_def class_probability_def class_of_def combined_score_def
        classNames_def for_loop_once js_ge_def js_gt_def is_nan_def js_min_0 not_less
        numeral_2_eq_2 numeral_3_eq_3)

lemma cell_lt: "y < H \<Longrightarrow> x < W \<Longrightarrow> y * W + x < H * (W::nat)"
proof -
  assume a: "y < H" "x < W"
  then have "y * W + x < y * W + W" by simp
  also have "\<dots> = Suc y * W" by simp
  also have "\<dots> \<le> H * W" using a(1) by (intro mult_le_mono1) simp
  finally show ?thesis .
qed

lemma decode_rows_slots:
  assumes "N * K \<le> length xs" "5 < K"
  shows "decode_rows (map Fin xs) (Fin thr) xS yS N K =
         map (slots_detection xS yS xs) (filter (cleared thr xs) (layout_slots (Rows N K)))"
proof -
  have "List.map_filter (row_detection (map Fin xs) (Fin thr) xS yS K) [0..<N] =
        map (slots_detection xS yS xs) (filter (cleared thr xs)
          (map (\<lambda>i. \<lparr>box_base = i * K, box_stride = 1, objectness_at = i * K + 4,
                     class_score_at = Some (i * K + 5), class_id_at = None\<rparr>) [0..<N]))"
  proof (rule map_filter_slots)
    fix i assume "i \<in> set [0..<N]"
    then have "i < N" by simp
    then have "i * K + K \<le> N * K"
      using mult_le_mono1[of "Suc i" N K] by simp
    then have "i * K + 5 < length xs" using assms by linarith
    from row_detection_slots[OF this]
    show "row_detection (map Fin xs) (Fin thr) xS yS K i =
          (if cleared thr xs \<lparr>box_base = i * K, box_stride = 1, objectness_at = i * K + 4,
                     class_score_at = Some (i * K + 5), class_id_at = None\<rparr>
           then Some (slots_detection xS yS xs \<lparr>box_base = i * K, box_stride = 1,
                     objectness_at = i * K + 4, class_score_at = Some (i * K + 5),
                     class_id_at = None\<rparr>)
           else None)"
      by (simp add: Let_def)
  qed
  then show ?thesis by (simp add: decode_rows_def for_loop_push)
qed

lemma decode_grid_slots:
  assumes "6 * (H * W) \<le> length xs"
  shows "decode_grid (map Fin xs) [b, C, H, W] (Fin thr) xS yS =
         map (slots_detection xS yS xs) (filter (cleared thr xs) (layout_slots (Grid H W)))"
proof -
  have "List.map_filter (\<lambda>(cy, cx). cell_detection (map Fin xs) [b, C, H, W] (Fin thr) xS yS cy cx)
          (List.product [0..<H] [0..<W]) =
        map (slots_detection xS yS xs) (filter (cleared thr xs)
          (map (\<lambda>(row, col). \<lparr>box_base = row * W + col, box_stride = H * W,
                         objectness_at = 4 * H * W + row * W + col,
                         class_score_at = Some (5 * H * W + row * W + col),
                         class_id_at = None\<rparr>) (List.product [0..<H] [0..<W])))"
  proof (rule map_filter_slots)
    fix u assume u: "u \<in> set (List.product [0..<H] [0..<W])"
    obtain cy cx where p: "u = (cy, cx)" by (cases u)
    with u have "cy < H" "cx < W" by simp_all
    then have "cy * W + cx < H * W" by (rule cell_lt)
    then have "5 * (H * W) + (cy * W + cx) < 6 * (H * W)" by simp
    then have "5 * H * W + cy * W + cx < length xs"
      using assms by (simp add: mult.assoc add.assoc)
    from cell_detection_slots[OF this]
    show "(case u of (cy, cx) \<Rightarrow> cell_detection (map Fin xs) [b, C, H, W] (Fin thr) xS yS cy cx) =
          (if cleared thr xs (case u of (row, col) \<Rightarrow> \<lparr>box_base = row * W + col,
                         box_stride = H * W, objectness_at = 4 * H * W + row * W + col,
                         class_score_at = Some (5 * H * W + row * W + col), class_id_at = None\<rparr>)
           then Some (slots_detection xS yS xs (case u of (row, col) \<Rightarrow> \<lparr>box_base = row * W + col,
                         box_stride = H * W, objectness_at = 4 * H * W + row * W + col,
                         class_score_at = Some (5 * H * W + row * W + col), class_id_at = None\<rparr>))
           else None)"
      unfolding p by (simp add: Let_def)
  qed
  then show ?thesis
    by (simp add: decode_grid_def Let_def for_loop_push2 concat_map_filter_product grid_cells_def)
qed

lemma decode_columns_slots:
  assumes "5 * N \<le> length xs"
  shows "decode_columns (map Fin xs) (Fin thr) xS yS N =
         map (slots_detection xS yS xs) (filter (cleared thr xs) (layout_slots (Columns N)))"
proof -
  have "List.map_filter (column_detection (map Fin xs) (Fin thr) xS yS N) [0..<N] =
        map (slots_detection xS yS xs) (filter (cleared thr xs)
          (map (\<lambda>i. \<lparr>box_base = i, box_stride = N, objectness_at = 4 * N + i,
                     class_score_at = None, class_id_at = None\<rparr>) [0..<N]))"
  proof (rule map_filter_slots)
    fix i assume "i \<in> set [0..<N]"
    then have "4 * N + i < length xs" using assms by simp
    from column_detection_slots[OF this]
    show "column_detection (map Fin xs) (Fin thr) xS yS N i =
          (if cleared thr xs \<lparr>box_base = i, box_stride = N, objectness_at = 4 * N + i,
                     class_score_at = None, class_id_at = None\<rparr>
           then Some (slots_detection xS yS xs \<lparr>box_base = i, box_stride = N,
                     objectness_at = 4 * N + i, class_score_at = None, class_id_at = None\<rparr>)
           else None)"
      by (simp add: Let_def)
  qed
  then show ?thesis by (simp add: decode_columns_def for_loop_push)
qed

lemma records_slots:
  "List.map_filter (\<lambda>m. record_detection (map Fin xs) (Fin thr) xS yS (6 * m))
     [0..<length xs div 6] =
   map (slots_detection xS yS xs) (filter (cleared thr xs) (layout_slots (Records (length xs div 6))))"
proof -
  have "List.map_filter (\<lambda>m. record_detection (map Fin xs) (Fin thr) xS yS (6 * m))
          [0..<length xs div 6] =
        map (slots_detection xS yS xs) (filter (cleared thr xs)
          (map (\<lambda>m. \<lparr>box_base = 6 * m, box_stride = 1, objectness_at = 6 * m + 4,
                     class_score_at = None, class_id_at = Some (6 * m + 5)\<rparr>)
             [0..<length xs div 6]))"
  proof (rule map_filter_slots)
    fix m assume "m \<in> set [0..<length xs div 6]"
    then have "m < length xs div 6" by simp
    then have "6 * m + 5 < length xs" by simp
    from record_detection_slots[OF this]
    show "record_detection (map Fin xs) (Fin thr) xS yS (6 * m) =
          (if cleared thr xs \<lparr>box_base = 6 * m, box_stride = 1, objectness_at = 6 * m + 4,
                     class_score_at = None, class_id_at = Some (6 * m + 5)\<rparr>
           then Some (slots_detection xS yS xs \<lparr>box_base = 6 * m, box_stride = 1,
                     objectness_at = 6 * m + 4, class_score_at = None,
                     class_id_at = Some (6 * m + 5)\<rparr>)
           else None)"
      by (simp add: Let_def)
  qed
  then show ?thesis by simp
qed

lemma worker_decode_records_units:
  "worker_decode_records dat thr xS yS =
   List.map_filter (\<lambda>m. record_detection dat thr xS yS (6 * m)) [0..<length dat div 6]"
  using for_loop6_push[of 0 "length dat" "record_detection dat thr xS yS" "[]"]
  by (simp add: worker_decode_records_def Let_def)

lemma decode_records_units:
  "decode_records dat thr xS yS =
   List.map_filter (\<lambda>m. record_detection dat thr xS yS (6 * m)) [0..<length dat div 6]"
proof -
  have guard: "(i + 5 < length dat) = (i + 6 \<le> length dat)" for i by linarith
  show ?thesis
    using for_loop6_push[of 0 "length dat" "record_detection dat thr xS yS" "[]"]
    by (simp add: decode_records_def Let_def guard)
qed

lemma worker_decode_records_slots:
  "worker_decode_records (map Fin xs) (Fin thr) xS yS =
   map (slots_detection xS yS xs) (filter (cleared thr xs) (layout_slots (Records (length xs div 6))))"
  using records_slots[of xs thr xS yS] by (simp add: worker_decode_records_units)

lemma decode_records_slots:
  "decode_records (map Fin xs) (Fin thr) xS yS =
   map (slots_detection xS yS xs) (filter (cleared thr xs) (layout_slots (Records (length xs div 6))))"
  using records_slots[of xs thr xS yS] by (simp add: decode_records_units)

lemma decode_batches_slots:
  assumes "B * N * 5 \<le> length xs"
  shows "decode_batches (map Fin xs) (Fin thr) xS yS B N 5 =
         map (slots_detection xS yS xs) (filter (cleared thr xs) (layout_slots (Batches B N)))"
proof -
  have "List.map_filter (\<lambda>(b, i). batch_detection (map Fin xs) (Fin thr) xS yS N 5 b i)
          (List.product [0..<B] [0..<N]) =
        map (slots_detection xS yS xs) (filter (cleared thr xs)
          (map (\<lambda>(b, i). \<lparr>box_base = b * N * 5 + i * 5, box_stride = 1,
                    objectness_at = b * N * 5 + i * 5 + 4,
                    class_score_at = None, class_id_at = None\<rparr>) (List.product [0..<B] [0..<N])))"
  proof (rule map_filter_slots)
    fix u assume u: "u \<in> set (List.product [0..<B] [0..<N])"
    obtain b i where p: "u = (b, i)" by (cases u)
    with u have "b < B" "i < N" by simp_all
    then have "b * N + i < B * N" by (rule cell_lt)
    then have "(b * N + i) * 5 + 4 < B * N * 5" by simp
    then have "b * N * 5 + i * 5 + 4 < length xs"
      using assms by (simp add: algebra_simps)
    from batch_detection_slots[OF this]
    show "(case u of (b, i) \<Rightarrow> batch_detection (map Fin xs) (Fin thr) xS yS N 5 b i) =
          (if cleared thr xs (case u of (b, i) \<Rightarrow> \<lparr>box_base = b * N * 5 + i * 5, box_stride = 1,
                    objectness_at = b * N * 5 + i * 5 + 4,
                    class_score_at = None, class_id_at = None\<rparr>)
           then Some (slots_detection xS yS xs (case u of (b, i) \<Rightarrow> \<lparr>box_base = b * N * 5 + i * 5,
                    box_stride = 1, objectness_at = b * N * 5 + i * 5 + 4,
                    class_score_at = None, class_id_at = None\<rparr>))
           else None)"
      unfolding p by (simp add: Let_def)
  qed
  then show ?thesis
    by (simp add: decode_batches_def for_loop_push2 concat_map_filter_product)
qed

lemma dims3: "length ds = 3 \<Longrightarrow> \<exists>a b c. ds = [a, b, c]"
  by (cases ds; simp; case_tac list; simp; case_tac lista; simp)

lemma dims4: "length ds = 4 \<Longrightarrow> \<exists>a b c d. ds = [a, b, c, d]"
  by (auto simp: numeral_eq_Suc length_Suc_conv)

lemma processYoloOutput_branches:
  "processYoloOutput t oW oH mW mH thr =
     (if length (dims t) = 3 \<and> 5 < dims t ! 2 then
        decode_rows (data t) thr (js_div oW mW) (js_div oH mH) (dims t ! 1) (dims t ! 2)
      else if length (dims t) = 4 then
        decode_grid (data t) (dims t) thr (js_div oW mW) (js_div oH mH)
      else if length (dims t) = 3 \<and> dims t ! 1 = 84 then
        decode_columns (data t) thr (js_div oW mW) (js_div oH mH) (dims t ! 2)
      else decode_records (data t) thr (js_div oW mW) (js_div oH mH))"
  by (auto simp: processYoloOutput_def Let_def)

lemma rows_fit:
  assumes "well_formed t" "length (dims t) = 3"
  shows "dims t ! 1 * dims t ! 2 \<le> length (data t)"
proof -
  from dims3[OF assms(2)] obtain b N K where d: "dims t = [b, N, K]" by blast
  from assms(1) d have len: "length (data t) = b * (N * K)" and b: "0 < b"
    by (simp_all add: well_formed_def)
  have "N * K \<le> b * (N * K)" using b by simp
  then show ?thesis using d len by simp
qed

lemma grid_fit:
  assumes "well_formed t" "dims t = [b, C, H, W]" "6 \<le> C"
  shows "6 * (H * W) \<le> length (data t)"
proof -
  from assms(1,2) have len: "length (data t) = b * (C * (H * W))" and b: "0 < b"
    by (simp_all add: well_formed_def)
  have "6 * (H * W) \<le> C * (H * W)" using assms(3) by (rule mult_le_mono1)
  also have "\<dots> \<le> b * (C * (H * W))" using b by simp
  finally show ?thesis using len by simp
qed

lemma batches_fit:
  assumes "well_formed t" "length (dims t) = 3"
  shows "dims t ! 0 * dims t ! 1 * dims t ! 2 \<le> length (data t)"
proof -
  from dims3[OF assms(2)] obtain b N K where d: "dims t = [b, N, K]" by blast
  from assms(1) d show ?thesis by (simp add: well_formed_def mult.assoc)
qed

text \<open>
  On a buffer of finite values that has a layout, each decoder returns the detections
  of the candidates of the layout that clear the threshold, in their order.
\<close>

lemma processYoloOutput_slots:
  assumes "utility_layout t L" "data t = map Fin xs"
  shows "processYoloOutput t oW oH mW mH (Fin thr) =
         map (slots_detection (js_div oW mW) (js_div oH mH) xs)
           (filter (cleared thr xs) (layout_slots L))"
proof (cases L)
  case (Rows N K)
  with assms(1) have wf: "well_formed t" and d: "length (dims t) = 3" "dims t ! 1 = N"
    "dims t ! 2 = K" "5 < K"
    by simp_all
  from rows_fit[OF wf d(1)] d assms(2) have "N * K \<le> length xs" by simp
  from decode_rows_slots[OF this d(4)] d assms(2) Rows show ?thesis
    by (simp add: processYoloOutput_branches)
next
  case (Grid H W)
  with assms(1) have wf: "well_formed t" and d: "length (dims t) = 4" "6 \<le> dims t ! 1"
    "dims t ! 2 = H" "dims t ! 3 = W"
    by simp_all
  from dims4[OF d(1)] d(3,4) obtain b C where ds: "dims t = [b, C, H, W]" by auto
  with d(2) have "6 \<le> C" by simp
  from grid_fit[OF wf ds this] assms(2) have "6 * (H * W) \<le> length xs" by simp
  from decode_grid_slots[OF this] ds assms(2) Grid show ?thesis
    by (simp add: processYoloOutput_branches)
next
  case (Columns N)
  with assms(1) have wf: "well_formed t" and d: "length (dims t) = 3" "dims t ! 1 = 84"
    "dims t ! 2 = N" "N \<le> 5"
    by simp_all
  from rows_fit[OF wf d(1)] d assms(2) have "5 * N \<le> length xs" by simp
  from decode_columns_slots[OF this] d assms(2) Columns show ?thesis
    by (simp add: processYoloOutput_branches)
next
  case (Records n)
  with assms(1) have d: "\<not> (length (dims t) = 3 \<and> 5 < dims t ! 2)" "length (dims t) \<noteq> 4"
    "\<not> (length (dims t) = 3 \<and> dims t ! 1 = 84)" "n = length (data t) div 6"
    by simp_all
  from d assms(2) Records decode_records_slots[of xs thr] show ?thesis
    by (auto simp: processYoloOutput_branches)
next
  case (Batches B N)
  with assms(1) show ?thesis by simp
qed

lemma worker_processYoloOutput_slots:
  assumes "worker_layout t L" "data t = map Fin xs"
  shows "worker_processYoloOutput t oW oH mW mH (Fin thr) =
         map (slots_detection (js_div oW mW) (js_div oH mH) xs)
           (filter (cleared thr xs) (layout_slots L))"
proof (cases L)
  case (Rows N K)
  with assms(1) have wf: "well_formed t" and d: "length (dims t) = 3" "dims t ! 1 = N"
    "dims t ! 2 = K" "5 < K"
    by simp_all
  from rows_fit[OF wf d(1)] d assms(2) have "N * K \<le> length xs" by simp
  from decode_rows_slots[OF this d(4)] d assms(2) Rows show ?thesis
    by (simp add: worker_processYoloOutput_def Let_def)
next
  case (Records n)
  with assms(1) have d: "length (dims t) = 1 \<or> length (dims t) = 2 \<and> dims t ! 0 = 1"
    "n = length (data t) div 6"
    by simp_all
  from d assms(2) Records worker_decode_records_slots[of xs thr] show ?thesis
    by (auto simp: worker_processYoloOutput_def Let_def)
next
  case (Batches B N)
  with assms(1) have wf: "well_formed t" and d: "length (dims t) = 3" "dims t ! 0 = B"
    "dims t ! 1 = N" "dims t ! 2 = 5"
    by simp_all
  from batches_fit[OF wf d(1)] d assms(2) have "B * N * 5 \<le> length xs" by simp
  from decode_batches_slots[OF this] d assms(2) Batches show ?thesis
    by (simp add: worker_processYoloOutput_def Let_def)
next
  case (Grid H W)
  with assms(1) show ?thesis by simp
next
  case (Columns N)
  with assms(1) show ?thesis by simp
qed

section \<open>Detection counts\<close>

lemma length_filter_mono:
  "\<forall>x \<in> set xs. P x \<longrightarrow> Q x \<Longrightarrow> length (filter P xs) \<le> length (filter Q xs)"
  by (induction xs) auto

lemma length_map_filter_mono:
  assumes "\<And>x. x \<in> set xs \<Longrightarrow> f2 x \<noteq> None \<Longrightarrow> f1 x \<noteq> None"
  shows "length (List.map_filter f2 xs) \<le> length (List.map_filter f1 xs)"
proof -
  have "length (filter (\<lambda>x. f2 x \<noteq> None) xs) \<le> length (filter (\<lambda>x. f1 x \<noteq> None) xs)"
    using assms by (intro length_filter_mono) blast
  then show ?thesis by (simp add: List.map_filter_def)
qed

lemma js_lt_mono: "thr1 \<le> thr2 \<Longrightarrow> js_lt a (Fin thr1) \<Longrightarrow> js_lt a (Fin thr2)"
  by (cases a) simp_all

lemma js_ge_mono: "thr1 \<le> thr2 \<Longrightarrow> js_ge a (Fin thr2) \<Longrightarrow> js_ge a (Fin thr1)"
  by (cases a) (simp_all add: js_ge_def is_nan_def)

lemma row_detection_mono:
  assumes "thr1 \<le> thr2" "row_detection dat (Fin thr2) xS yS K i \<noteq> None"
  shows "row_detection dat (Fin thr1) xS yS K i \<noteq> None"
  using assms js_lt_mono[OF assms(1)]
  by (auto simp: row_detection_def Let_def split: if_splits prod.splits)

lemma cell_detection_mono:
  assumes "thr1 \<le> thr2" "cell_detection dat ds (Fin thr2) xS yS cy cx \<noteq> None"
  shows "cell_detection dat ds (Fin thr1) xS yS cy cx \<noteq> None"
  using assms js_lt_mono[OF assms(1)]
  by (auto simp: cell_detection_def Let_def split: if_splits prod.splits)

lemma column_detection_mono:
  assumes "thr1 \<le> thr2" "column_detection dat (Fin thr2) xS yS N i \<noteq> None"
  shows "column_detection dat (Fin thr1) xS yS N i \<noteq> None"
  using assms js_lt_mono[OF assms(1)]
  by (auto simp: column_detection_def Let_def split: if_splits)

lemma record_detection_mono:
  assumes "thr1 \<le> thr2" "record_detection dat (Fin thr2) xS yS i \<noteq> None"
  shows "record_detection dat (Fin thr1) xS yS i \<noteq> None"
  using assms js_ge_mono[OF assms(1)]
  by (auto simp: record_detection_def Let_def split: if_splits)

lemma batch_detection_mono:
  assumes "thr1 \<le> thr2" "batch_detection dat (Fin thr2) xS yS N E b i \<noteq> None"
  shows "batch_detection dat (Fin thr1) xS yS N E b i \<noteq> None"
  using assms js_lt_mono[OF assms(1)] js_ge_mono[OF assms(1)]
  by (auto simp: batch_detection_def Let_def split: if_splits prod.splits)

lemma decode_rows_mono:
  assumes "thr1 \<le> thr2"
  shows "length (decode_rows dat (Fin thr2) xS yS N K) \<le>
         length (decode_rows dat (Fin thr1) xS yS N K)"
proof -
  have "length (List.map_filter (row_detection dat (Fin thr2) xS yS K) [0..<N]) \<le>
        length (List.map_filter (row_detection dat (Fin thr1) xS yS K) [0..<N])"
    by (rule length_map_filter_mono) (rule row_detection_mono[OF assms])
  then show ?thesis by (simp add: decode_rows_def for_loop_push)
qed

lemma decode_columns_mono:
  assumes "thr1 \<le> thr2"
  shows "length (decode_columns dat (Fin thr2) xS yS N) \<le>
         length (decode_columns dat (Fin thr1) xS yS N)"
proof -
  have "length (List.map_filter (column_detection dat (Fin thr2) xS yS N) [0..<N]) \<le>
        length (List.map_filter (column_detection dat (Fin thr1) xS yS N) [0..<N])"
    by (rule length_map_filter_mono) (rule column_detection_mono[OF assms])
  then show ?thesis by (simp add: decode_columns_def for_loop_push)
qed

lemma length_map_filter_pairs_mono:
  assumes "\<And>y x. f2 y x \<noteq> None \<Longrightarrow> f1 y x \<noteq> None"
  shows "length (List.map_filter (\<lambda>(y, x). f2 y x) ps) \<le>
         length (List.map_filter (\<lambda>(y, x). f1 y x) ps)"
proof (rule length_map_filter_mono)
  fix p :: "'a \<times> 'b"
  assume "(case p of (y, x) \<Rightarrow> f2 y x) \<noteq> None"
  then show "(case p of (y, x) \<Rightarrow> f1 y x) \<noteq> None"
    using assms by (cases p) simp
qed

lemma decode_grid_mono:
  assumes "thr1 \<le> thr2"
  shows "length (decode_grid dat ds (Fin thr2) xS yS) \<le>
         length (decode_grid dat ds (Fin thr1) xS yS)"
proof -
  have "length (List.map_filter (\<lambda>(cy, cx). cell_detection dat ds (Fin thr2) xS yS cy cx) ps) \<le>
        length (List.map_filter (\<lambda>(cy, cx). cell_detection dat ds (Fin thr1) xS yS cy cx) ps)"
    for ps
    by (rule length_map_filter_pairs_mono) (rule cell_detection_mono[OF assms])
  then show ?thesis
    by (simp add: decode_grid_def Let_def for_loop_push2 concat_map_filter_product)
qed

lemma decode_batches_mono:
  assumes "thr1 \<le> thr2"
  shows "length (decode_batches dat (Fin thr2) xS yS B N E) \<le>
         length (decode_batches dat (Fin thr1) xS yS B N E)"
proof -
  have "length (List.map_filter (\<lambda>(b, i). batch_detection dat (Fin thr2) xS yS N E b i) ps) \<le>
        length (List.map_filter (\<lambda>(b, i). batch_detection dat (Fin thr1) xS yS N E b i) ps)"
    for ps
    by (rule length_map_filter_pairs_mono) (rule batch_detection_mono[OF assms])
  then show ?thesis
    by (simp add: decode_batches_def for_loop_push2 concat_map_filter_product)
qed

lemma decode_records_mono:
  assumes "thr1 \<le> thr2"
  shows "length (decode_records dat (Fin thr2) xS yS) \<le>
         length (decode_records dat (Fin thr1) xS yS)"
  unfolding decode_records_units
  by (rule length_map_filter_mono) (rule record_detection_mono[OF assms])

lemma worker_decode_records_mono:
  assumes "thr1 \<le> thr2"
  shows "length (worker_decode_records dat (Fin thr2) xS yS) \<le>
         length (worker_decode_records dat (Fin thr1) xS yS)"
  unfolding worker_decode_records_units
  by (rule length_map_filter_mono) (rule record_detection_mono[OF assms])

lemma processYoloOutput_mono:
  assumes "thr1 \<le> thr2"
  shows "length (processYoloOutput t oW oH mW mH (Fin thr2)) \<le>
         length (processYoloOutput t oW oH mW mH (Fin thr1))"
  using decode_rows_mono[OF assms] decode_grid_mono[OF assms] decode_columns_mono[OF assms]
    decode_records_mono[OF assms]
  by (simp add: processYoloOutput_branches)

lemma worker_processYoloOutput_mono:
  assumes "thr1 \<le> thr2"
  shows "length (worker_processYoloOutput t oW oH mW mH (Fin thr2)) \<le>
         length (worker_processYoloOutput t oW oH mW mH (Fin thr1))"
  using decode_rows_mono[OF assms] decode_batches_mono[OF assms]
    worker_decode_records_mono[OF assms]
  by (simp add: worker_processYoloOutput_def Let_def)

lemma class_probability_nonneg: "0 \<le> class_probability xs s"
  by (simp add: class_probability_def split: option.splits)

lemma cleared_zero: "0 \<le> objectness xs s \<Longrightarrow> cleared 0 xs s"
  by (simp add: cleared_def combined_score_def class_probability_nonneg)


section \<open>The fields of a decoded detection\<close>

lemma bbox_slots_detection:
  assumes "mW \<noteq> 0" "mH \<noteq> 0"
  shows "bbox (slots_detection (js_div (Fin oW) (Fin mW)) (js_div (Fin oH) (Fin mH)) xs s) =
         emitted_box oW oH mW mH (raw_box xs s)"
  using assms
  by (cases "raw_box xs s") (simp add: slots_detection_def scaled_bbox_def emitted_box_def)





lemma grid_candidate_slots:
  assumes "mW \<noteq> 0" "mH \<noteq> 0"
  shows "grid_candidate xs H W oW oH mW mH thr row col =
         (let s = \<lparr>box_base = row * W + col, box_stride = H * W,
                   objectness_at = 4 * H * W + row * W + col,
                   class_score_at = Some (5 * H * W + row * W + col), class_id_at = None\<rparr>
          in if cleared thr xs s
             then Some (slots_detection (js_div (Fin oW) (Fin mW)) (js_div (Fin oH) (Fin mH)) xs s)
             else None)"
proof -
  have e: "Suc 0 * H * W + row * W + col = row * W + col + H * W"
       "2 * H * W + row * W + col = row * W + col + 2 * (H * W)"
       "3 * H * W + row * W + col = row * W + col + 3 * (H * W)"
       "0 * H * W + row * W + col = row * W + col"
    by simp_all
  show ?thesis
    unfolding grid_candidate_def Let_def One_nat_def e
    using assms
    by (simp add: cleared_def slots_detection_def raw_box_def objectness_def
          class_probability_def class_of_def combined_score_def scaled_bbox_def emitted_box_def
          js_min_0 classNames_def not_less)
qed

section \<open>The grid layout\<close>

text \<open>
  Claim C2, as the decoder of the inference utility has it. On a well-formed tensor of
  shape \<open>[b, C, H, W]\<close> that holds finite values and at least the six channels of a
  candidate, with a model size other than 0, the decoder goes through every cell
  \<open>(row, col)\<close> of the grid, row by row, and makes one candidate of each: channel \<open>ch\<close> of
  the cell is read at index \<open>ch * H * W + row * W + col\<close>, channels 0 to 3 are the box,
  channel 4 is the objectness, and channel 5 is the score of the one class of the class
  table; no channel above 5 is read. The detections are the candidates that pass the
  threshold, in that order.
\<close>

theorem grid_layout:
  assumes "utility_layout t (Grid H W)" and "data t = map Fin xs"
    and "modelW \<noteq> 0" and "modelH \<noteq> 0"
  shows "processYoloOutput t (Fin origW) (Fin origH) (Fin modelW) (Fin modelH) (Fin thr) =
         List.map_filter
           (\<lambda>(row, col). grid_candidate xs H W origW origH modelW modelH thr row col)
           (grid_cells H W)"
proof -
  let ?xS = "js_div (Fin origW) (Fin modelW)" and ?yS = "js_div (Fin origH) (Fin modelH)"
  have candidates: "List.map_filter
          (\<lambda>(row, col). grid_candidate xs H W origW origH modelW modelH thr row col)
          (grid_cells H W) =
        map (slots_detection ?xS ?yS xs) (filter (cleared thr xs)
          (map (\<lambda>(row, col). \<lparr>box_base = row * W + col, box_stride = H * W,
                         objectness_at = 4 * H * W + row * W + col,
                         class_score_at = Some (5 * H * W + row * W + col),
                         class_id_at = None\<rparr>) (grid_cells H W)))"
  proof (rule map_filter_slots)
    fix u :: "nat \<times> nat"
    obtain row col where p: "u = (row, col)" by (cases u)
    show "(case u of (row, col) \<Rightarrow> grid_candidate xs H W origW origH modelW modelH thr row col) =
          (if cleared thr xs (case u of (row, col) \<Rightarrow> \<lparr>box_base = row * W + col,
                         box_stride = H * W, objectness_at = 4 * H * W + row * W + col,
                         class_score_at = Some (5 * H * W + row * W + col), class_id_at = None\<rparr>)
           then Some (slots_detection ?xS ?yS xs (case u of (row, col) \<Rightarrow>
                        \<lparr>box_base = row * W + col,
                         box_stride = H * W, objectness_at = 4 * H * W + row * W + col,
                         class_score_at = Some (5 * H * W + row * W + col), class_id_at = None\<rparr>))
           else None)"
      unfolding p prod.case grid_candidate_slots[OF assms(3,4)] Let_def ..
  qed
  have "processYoloOutput t (Fin origW) (Fin origH) (Fin modelW) (Fin modelH) (Fin thr) =
        map (slots_detection ?xS ?yS xs) (filter (cleared thr xs) (layout_slots (Grid H W)))"
    by (rule processYoloOutput_slots[OF assms(1,2)])
  also have "\<dots> = List.map_filter
          (\<lambda>(row, col). grid_candidate xs H W origW origH modelW modelH thr row col)
          (grid_cells H W)"
    unfolding candidates layout_slots.simps ..
  finally show ?thesis .
qed

theorem grid_layout_witness:
  "utility_layout
     \<lparr>data = map Fin [1, 2, 3, 4, 5, 6, 7, 8, 9, 10, 11, 12, 13, 14, 15, 16,
                       9 / 10, 1 / 10, 8 / 10, 7 / 10, 5 / 10, 9 / 10, 1, 2 / 10],
      dims = [1, 6, 2, 2]\<rparr> (Grid 2 2) \<and>
   (640 :: real) \<noteq> 0 \<and>
   List.map_filter
     (\<lambda>(row, col).
        grid_candidate [1, 2, 3, 4, 5, 6, 7, 8, 9, 10, 11, 12, 13, 14, 15, 16,
                        9 / 10, 1 / 10, 8 / 10, 7 / 10, 5 / 10, 9 / 10, 1, 2 / 10]
          2 2 640 640 640 640 (1 / 2) row col)
     (grid_cells 2 2) =
   [\<lparr>bbox = (Fin (- (5 / 2)), Fin (- (1 / 2)), Fin 11, Fin 15), score = Fin (4 / 5),
     class_id = Fin 0, class_name = Some ''birdnest''\<rparr>]"
proof -
  let ?xs = "[1, 2, 3, 4, 5, 6, 7, 8, 9, 10, 11, 12, 13, 14, 15, 16,
              9 / 10, 1 / 10, 8 / 10, 7 / 10, 5 / 10, 9 / 10, 1, 2 / 10] :: real list"
  let ?t = "\<lparr>data = map Fin ?xs, dims = [1, 6, 2, 2]\<rparr>"
  have shape: "utility_layout ?t (Grid 2 2)" by (simp add: well_formed_def)
  have finite: "data ?t = map Fin ?xs" by simp
  have nz: "(640 :: real) \<noteq> 0" by simp
  have run: "processYoloOutput ?t (Fin 640) (Fin 640) (Fin 640) (Fin 640) (Fin (1 / 2)) =
     [\<lparr>bbox = (Fin (- (5 / 2)), Fin (- (1 / 2)), Fin 11, Fin 15), score = Fin (4 / 5),
       class_id = Fin 0, class_name = Some ''birdnest''\<rparr>]"
    by code_simp
  from grid_layout[OF shape finite nz nz, of 640 640 "1 / 2"] run shape show ?thesis
    by simp
qed

text \<open>
  Claim C2 as stated fails on the grid of one cell with the channels
  \<open>[0, 0, 0, 0, 1, 0.1, 0.9]\<close>: the decoder of the worker, which has no branch for a
  shape of length 4, makes no candidate of the cell and returns nothing, and the decoder
  of the inference utility scores the cell 0.1, from channel 5 alone, where the maximum
  over the class channels 5 and 6 gives 0.9.
\<close>

theorem grid_cell_not_decoded:
  "worker_processYoloOutput \<lparr>data = map Fin [0, 0, 0, 0, 1, 1 / 10, 9 / 10], dims = [1, 7, 1, 1]\<rparr>
     (Fin 640) (Fin 640) (Fin 640) (Fin 640) (Fin (1 / 20)) = [] \<and>
   map score (processYoloOutput
     \<lparr>data = map Fin [0, 0, 0, 0, 1, 1 / 10, 9 / 10], dims = [1, 7, 1, 1]\<rparr>
     (Fin 640) (Fin 640) (Fin 640) (Fin 640) (Fin (1 / 20))) = [Fin (1 / 10)] \<and>
   [0, 0, 0, 0, 1, 1 / 10, 9 / 10] ! 4 *
     bestClassProbability (drop 5 [0, 0, 0, 0, 1, 1 / 10, 9 / 10]) = 9 / 10"
proof (intro conjI)
  show "worker_processYoloOutput
     \<lparr>data = map Fin [0, 0, 0, 0, 1, 1 / 10, 9 / 10], dims = [1, 7, 1, 1]\<rparr>
     (Fin 640) (Fin 640) (Fin 640) (Fin 640) (Fin (1 / 20)) = []"
    by code_simp
  show "map score (processYoloOutput
     \<lparr>data = map Fin [0, 0, 0, 0, 1, 1 / 10, 9 / 10], dims = [1, 7, 1, 1]\<rparr>
     (Fin 640) (Fin 640) (Fin 640) (Fin 640) (Fin (1 / 20))) = [Fin (1 / 10)]"
    by code_simp
  show "[0, 0, 0, 0, 1, 1 / 10, 9 / 10] ! 4 *
     bestClassProbability (drop 5 [0, 0, 0, 0, 1, 1 / 10, 9 / 10]) = (9 / 10 :: real)"
    by (simp add: bestClassProbability_def)
qed

section \<open>Box geometry\<close>

text \<open>
  Claim C3. On a tensor of finite values that has a layout, with a model size other
  than 0, the boxes either decoder returns are, in the order of decoding, the boxes
  \<open>((cx - w/2) * origW / modelW, (cy - h/2) * origH / modelH, w * origW / modelW,
  h * origH / modelH)\<close> of the raw centre boxes \<open>(cx, cy, w, h)\<close> of the candidates that
  clear the threshold, each read from the four box slots of its own candidate. With
  \<open>origW = 1000\<close>, \<open>origH = 500\<close>, a model input of 640 by 640 and the raw box
  \<open>(320, 320, 64, 64)\<close> the box is \<open>(450, 225, 100, 50)\<close>, which both decoders return for
  the one row of two that passes the threshold.
\<close>

theorem box_geometry:
  assumes "data t = map Fin xs" and "modelW \<noteq> 0" and "modelH \<noteq> 0"
  shows "(utility_layout t L \<longrightarrow>
            map bbox (processYoloOutput t (Fin origW) (Fin origH) (Fin modelW) (Fin modelH)
                        (Fin thr)) =
            map (\<lambda>s. emitted_box origW origH modelW modelH (raw_box xs s))
              (filter (cleared thr xs) (layout_slots L))) \<and>
         (worker_layout t L \<longrightarrow>
            map bbox (worker_processYoloOutput t (Fin origW) (Fin origH) (Fin modelW)
                        (Fin modelH) (Fin thr)) =
            map (\<lambda>s. emitted_box origW origH modelW modelH (raw_box xs s))
              (filter (cleared thr xs) (layout_slots L))) \<and>
         emitted_box 1000 500 640 640 (320, 320, 64, 64) = (Fin 450, Fin 225, Fin 100, Fin 50) \<and>
         map bbox (processYoloOutput
                     \<lparr>data = map Fin [320, 320, 64, 64, 9 / 10, 9 / 10,
                                      100, 100, 20, 20, 1 / 10, 9 / 10], dims = [1, 2, 6]\<rparr>
                     (Fin 1000) (Fin 500) (Fin 640) (Fin 640) (Fin (1 / 2))) =
           [(Fin 450, Fin 225, Fin 100, Fin 50)] \<and>
         map bbox (worker_processYoloOutput
                     \<lparr>data = map Fin [320, 320, 64, 64, 9 / 10, 9 / 10,
                                      100, 100, 20, 20, 1 / 10, 9 / 10], dims = [1, 2, 6]\<rparr>
                     (Fin 1000) (Fin 500) (Fin 640) (Fin 640) (Fin (1 / 2))) =
           [(Fin 450, Fin 225, Fin 100, Fin 50)]"
proof (intro conjI impI)
  assume "utility_layout t L"
  note decoded = processYoloOutput_slots[OF this assms(1)]
  show "map bbox (processYoloOutput t (Fin origW) (Fin origH) (Fin modelW) (Fin modelH)
                    (Fin thr)) =
        map (\<lambda>s. emitted_box origW origH modelW modelH (raw_box xs s))
          (filter (cleared thr xs) (layout_slots L))"
    unfolding decoded by (simp only: map_map comp_def bbox_slots_detection[OF assms(2,3)])
next
  assume "worker_layout t L"
  note decoded = worker_processYoloOutput_slots[OF this assms(1)]
  show "map bbox (worker_processYoloOutput t (Fin origW) (Fin origH) (Fin modelW)
                    (Fin modelH) (Fin thr)) =
        map (\<lambda>s. emitted_box origW origH modelW modelH (raw_box xs s))
          (filter (cleared thr xs) (layout_slots L))"
    unfolding decoded by (simp only: map_map comp_def bbox_slots_detection[OF assms(2,3)])
next
  show "emitted_box 1000 500 640 640 (320, 320, 64, 64) = (Fin 450, Fin 225, Fin 100, Fin 50)"
    by (simp add: emitted_box_def)
next
  show "map bbox (processYoloOutput
                     \<lparr>data = map Fin [320, 320, 64, 64, 9 / 10, 9 / 10,
                                      100, 100, 20, 20, 1 / 10, 9 / 10], dims = [1, 2, 6]\<rparr>
                     (Fin 1000) (Fin 500) (Fin 640) (Fin 640) (Fin (1 / 2))) =
           [(Fin 450, Fin 225, Fin 100, Fin 50)]"
    by code_simp
next
  show "map bbox (worker_processYoloOutput
                     \<lparr>data = map Fin [320, 320, 64, 64, 9 / 10, 9 / 10,
                                      100, 100, 20, 20, 1 / 10, 9 / 10], dims = [1, 2, 6]\<rparr>
                     (Fin 1000) (Fin 500) (Fin 640) (Fin 640) (Fin (1 / 2))) =
           [(Fin 450, Fin 225, Fin 100, Fin 50)]"
    by code_simp
qed

theorem box_geometry_witness:
  "utility_layout
     \<lparr>data = map Fin [320, 100, 320, 100, 64, 20, 64, 20, 9 / 10, 1 / 10, 9 / 10, 9 / 10],
      dims = [1, 6, 1, 2]\<rparr> (Grid 1 2) \<and>
   worker_layout
     \<lparr>data = map Fin [100, 100, 20, 20, 1 / 10, 320, 320, 64, 64, 9 / 10], dims = [2, 1, 5]\<rparr>
     (Batches 2 1) \<and>
   (640 :: real) \<noteq> 0 \<and>
   map (\<lambda>s. emitted_box 1000 500 640 640
              (raw_box [320, 100, 320, 100, 64, 20, 64, 20, 9 / 10, 1 / 10, 9 / 10, 9 / 10] s))
     (filter (cleared (1 / 2)
                [320, 100, 320, 100, 64, 20, 64, 20, 9 / 10, 1 / 10, 9 / 10, 9 / 10])
        (layout_slots (Grid 1 2))) =
     [(Fin 450, Fin 225, Fin 100, Fin 50)] \<and>
   map (\<lambda>s. emitted_box 1000 500 640 640
              (raw_box [100, 100, 20, 20, 1 / 10, 320, 320, 64, 64, 9 / 10] s))
     (filter (cleared (1 / 2) [100, 100, 20, 20, 1 / 10, 320, 320, 64, 64, 9 / 10])
        (layout_slots (Batches 2 1))) =
     [(Fin 450, Fin 225, Fin 100, Fin 50)]"
proof -
  let ?g = "[320, 100, 320, 100, 64, 20, 64, 20, 9 / 10, 1 / 10, 9 / 10, 9 / 10] :: real list"
  let ?b = "[100, 100, 20, 20, 1 / 10, 320, 320, 64, 64, 9 / 10] :: real list"
  let ?tg = "\<lparr>data = map Fin ?g, dims = [1, 6, 1, 2]\<rparr>"
  let ?tb = "\<lparr>data = map Fin ?b, dims = [2, 1, 5]\<rparr>"
  have grid: "utility_layout ?tg (Grid 1 2)" by (simp add: well_formed_def)
  have batches: "worker_layout ?tb (Batches 2 1)" by (simp add: well_formed_def)
  have nz: "(640 :: real) \<noteq> 0" by simp
  have rg: "map bbox (processYoloOutput ?tg (Fin 1000) (Fin 500) (Fin 640) (Fin 640)
                        (Fin (1 / 2))) = [(Fin 450, Fin 225, Fin 100, Fin 50)]"
    by code_simp
  have rb: "map bbox (worker_processYoloOutput ?tb (Fin 1000) (Fin 500) (Fin 640) (Fin 640)
                        (Fin (1 / 2))) = [(Fin 450, Fin 225, Fin 100, Fin 50)]"
    by code_simp
  have vg: "data ?tg = map Fin ?g" and vb: "data ?tb = map Fin ?b" by simp_all
  from box_geometry[OF vg nz nz, of "Grid 1 2" 1000 500 "1 / 2"] grid rg
  have "map (\<lambda>s. emitted_box 1000 500 640 640 (raw_box ?g s))
          (filter (cleared (1 / 2) ?g) (layout_slots (Grid 1 2))) =
        [(Fin 450, Fin 225, Fin 100, Fin 50)]"
    by simp
  moreover from box_geometry[OF vb nz nz, of "Batches 2 1" 1000 500 "1 / 2"] batches rb
  have "map (\<lambda>s. emitted_box 1000 500 640 640 (raw_box ?b s))
          (filter (cleared (1 / 2) ?b) (layout_slots (Batches 2 1))) =
        [(Fin 450, Fin 225, Fin 100, Fin 50)]"
    by simp
  ultimately show ?thesis using grid batches nz by blast
qed

section \<open>Scores and classes\<close>







section \<open>The direct format \<open>[1, 84, num_boxes]\<close>\<close>

text \<open>
  Claim C1, at a tensor of shape \<open>[1, 84, 6]\<close> whose channel 4 holds the confidence 0.9
  for each of the six boxes and whose other values are 0. The shape satisfies the test
  of format 1, which comes first, so the decoder reads 84 rows of 6 values and returns
  the one detection of row 4; the branch of format 3, on the same buffer, would return
  six detections of score 0.9.
\<close>

theorem direct_format_decoded_as_rows:
  "processYoloOutput
     \<lparr>data = map Fin (replicate 24 0 @ replicate 6 (9 / 10) @ replicate 474 0),
      dims = [1, 84, 6]\<rparr>
     (Fin 640) (Fin 640) (Fin 640) (Fin 640) (Fin (1 / 2)) =
   decode_rows (map Fin (replicate 24 0 @ replicate 6 (9 / 10) @ replicate 474 0)) (Fin (1 / 2))
     (Fin 1) (Fin 1) 84 6 \<and>
   processYoloOutput
     \<lparr>data = map Fin (replicate 24 0 @ replicate 6 (9 / 10) @ replicate 474 0),
      dims = [1, 84, 6]\<rparr>
     (Fin 640) (Fin 640) (Fin 640) (Fin 640) (Fin (1 / 2)) =
   [\<lparr>bbox = (Fin (9 / 20), Fin (9 / 20), Fin (9 / 10), Fin (9 / 10)),
     score = Fin (81 / 100), class_id = Fin 0, class_name = Some ''birdnest''\<rparr>] \<and>
   map score (decode_columns (map Fin (replicate 24 0 @ replicate 6 (9 / 10) @ replicate 474 0))
     (Fin (1 / 2)) (Fin 1) (Fin 1) 6) = replicate 6 (Fin (9 / 10))"
  by code_simp

section \<open>The batch branch of the worker\<close>

text \<open>
  Claim C10, at the well-formed tensor of shape \<open>[1, 2, 3]\<close> with the buffer
  \<open>[10, 20, 30, 40, 0.9, 60]\<close>: two records of three elements. For the first record the
  batch branch reads the confidence at offset 4 and the height at offset 3, both in the
  second record, and emits a detection. For the second record it reads the confidence at
  index 7, past the six elements of the buffer: with two more values after the buffer
  the same shape gives a second detection, of score the value at index 7.
\<close>

theorem batch_branch_reads_past_record:
  "worker_processYoloOutput \<lparr>data = map Fin [10, 20, 30, 40, 9 / 10, 60], dims = [1, 2, 3]\<rparr>
     (Fin 640) (Fin 640) (Fin 640) (Fin 640) (Fin (1 / 2)) =
     [\<lparr>bbox = (Fin (- 5), Fin 0, Fin 30, Fin 40), score = Fin (9 / 10), class_id = Fin 0,
       class_name = Some ''birdnest''\<rparr>] \<and>
   worker_processYoloOutput
     \<lparr>data = map Fin [10, 20, 30, 40, 9 / 10, 60, 0, 8 / 10], dims = [1, 2, 3]\<rparr>
     (Fin 640) (Fin 640) (Fin 640) (Fin 640) (Fin (1 / 2)) =
     [\<lparr>bbox = (Fin (- 5), Fin 0, Fin 30, Fin 40), score = Fin (9 / 10), class_id = Fin 0,
       class_name = Some ''birdnest''\<rparr>,
      \<lparr>bbox = (Fin 10, Fin (9 / 10), Fin 60, Fin 0), score = Fin (8 / 10), class_id = Fin 0,
       class_name = Some ''birdnest''\<rparr>]"
  by code_simp

section \<open>The number of detections\<close>

text \<open>
  Claim C7, as the decoders have it. For every tensor and both decoders the number of
  detections does not grow when the threshold grows. With the threshold 0, on a tensor
  of finite values that has a layout and none of whose candidates has an objectness
  below 0, either decoder returns exactly one detection per candidate of the layout:
  one per row for the rows, in both decoders; one per grid cell for the grid and one
  per column for the direct format, in the decoder of the inference utility, the only
  one with these layouts; one per record for the records.
\<close>

theorem detection_count:
  "(thr1 \<le> thr2 \<longrightarrow>
      length (processYoloOutput t origW origH modelW modelH (Fin thr2)) \<le>
      length (processYoloOutput t origW origH modelW modelH (Fin thr1)) \<and>
      length (worker_processYoloOutput t origW origH modelW modelH (Fin thr2)) \<le>
      length (worker_processYoloOutput t origW origH modelW modelH (Fin thr1))) \<and>
   (data t = map Fin xs \<and> utility_layout t L \<and>
      (\<forall>s \<in> set (layout_slots L). 0 \<le> objectness xs s) \<longrightarrow>
      length (processYoloOutput t origW origH modelW modelH (Fin 0)) = length (layout_slots L)) \<and>
   (data t = map Fin xs \<and> worker_layout t L \<and>
      (\<forall>s \<in> set (layout_slots L). 0 \<le> objectness xs s) \<longrightarrow>
      length (worker_processYoloOutput t origW origH modelW modelH (Fin 0)) =
      length (layout_slots L)) \<and>
   length (layout_slots (Rows N K)) = N \<and>
   length (layout_slots (Grid H W)) = H * W \<and>
   length (layout_slots (Columns N)) = N \<and>
   length (layout_slots (Records n)) = n \<and>
   length (layout_slots (Batches B N)) = B * N"
proof -
  have all_cleared: "filter (cleared 0 xs) (layout_slots L) = layout_slots L"
    if "\<forall>s \<in> set (layout_slots L). 0 \<le> objectness xs s"
    using that by (intro filter_True) (simp add: cleared_zero)
  have mono: "thr1 \<le> thr2 \<longrightarrow>
      length (processYoloOutput t origW origH modelW modelH (Fin thr2)) \<le>
      length (processYoloOutput t origW origH modelW modelH (Fin thr1)) \<and>
      length (worker_processYoloOutput t origW origH modelW modelH (Fin thr2)) \<le>
      length (worker_processYoloOutput t origW origH modelW modelH (Fin thr1))"
    using processYoloOutput_mono worker_processYoloOutput_mono by blast
  have utility: "data t = map Fin xs \<and> utility_layout t L \<and>
      (\<forall>s \<in> set (layout_slots L). 0 \<le> objectness xs s) \<longrightarrow>
      length (processYoloOutput t origW origH modelW modelH (Fin 0)) = length (layout_slots L)"
  proof (intro impI, elim conjE)
    assume a: "data t = map Fin xs" "utility_layout t L"
      "\<forall>s \<in> set (layout_slots L). 0 \<le> objectness xs s"
    show "length (processYoloOutput t origW origH modelW modelH (Fin 0)) =
          length (layout_slots L)"
      unfolding processYoloOutput_slots[OF a(2,1)] all_cleared[OF a(3)] by simp
  qed
  have worker: "data t = map Fin xs \<and> worker_layout t L \<and>
      (\<forall>s \<in> set (layout_slots L). 0 \<le> objectness xs s) \<longrightarrow>
      length (worker_processYoloOutput t origW origH modelW modelH (Fin 0)) =
      length (layout_slots L)"
  proof (intro impI, elim conjE)
    assume a: "data t = map Fin xs" "worker_layout t L"
      "\<forall>s \<in> set (layout_slots L). 0 \<le> objectness xs s"
    show "length (worker_processYoloOutput t origW origH modelW modelH (Fin 0)) =
          length (layout_slots L)"
      unfolding worker_processYoloOutput_slots[OF a(2,1)] all_cleared[OF a(3)] by simp
  qed
  have units: "length (layout_slots (Rows N K)) = N"
    "length (layout_slots (Grid H W)) = H * W"
    "length (layout_slots (Columns N)) = N"
    "length (layout_slots (Records n)) = n"
    "length (layout_slots (Batches B N)) = B * N"
    by (simp_all add: grid_cells_def)
  from mono utility worker units show ?thesis by blast
qed

theorem detection_count_witness:
  "(0 :: real) \<le> 1 / 2 \<and>
   utility_layout
     \<lparr>data = map Fin [0, 0, 0, 0, 9 / 10, 1, 0, 0, 0, 0, 1 / 10, 1], dims = [1, 2, 6]\<rparr>
     (Rows 2 6) \<and>
   worker_layout
     \<lparr>data = map Fin [0, 0, 0, 0, 9 / 10, 1, 0, 0, 0, 0, 1 / 10, 1], dims = [1, 2, 6]\<rparr>
     (Rows 2 6) \<and>
   utility_layout
     \<lparr>data = map Fin [0, 0, 0, 0, 0, 0, 0, 0, 9 / 10, 0, 0, 0], dims = [1, 6, 1, 2]\<rparr>
     (Grid 1 2) \<and>
   length (processYoloOutput
     \<lparr>data = map Fin [0, 0, 0, 0, 9 / 10, 1, 0, 0, 0, 0, 1 / 10, 1], dims = [1, 2, 6]\<rparr>
     (Fin 640) (Fin 640) (Fin 640) (Fin 640) (Fin (1 / 2))) \<le>
   length (processYoloOutput
     \<lparr>data = map Fin [0, 0, 0, 0, 9 / 10, 1, 0, 0, 0, 0, 1 / 10, 1], dims = [1, 2, 6]\<rparr>
     (Fin 640) (Fin 640) (Fin 640) (Fin 640) (Fin 0)) \<and>
   length (processYoloOutput
     \<lparr>data = map Fin [0, 0, 0, 0, 9 / 10, 1, 0, 0, 0, 0, 1 / 10, 1], dims = [1, 2, 6]\<rparr>
     (Fin 640) (Fin 640) (Fin 640) (Fin 640) (Fin 0)) = 2 \<and>
   length (worker_processYoloOutput
     \<lparr>data = map Fin [0, 0, 0, 0, 9 / 10, 1, 0, 0, 0, 0, 1 / 10, 1], dims = [1, 2, 6]\<rparr>
     (Fin 640) (Fin 640) (Fin 640) (Fin 640) (Fin 0)) = 2 \<and>
   length (processYoloOutput
     \<lparr>data = map Fin [0, 0, 0, 0, 0, 0, 0, 0, 9 / 10, 0, 0, 0], dims = [1, 6, 1, 2]\<rparr>
     (Fin 640) (Fin 640) (Fin 640) (Fin 640) (Fin 0)) = 2"
proof -
  let ?r = "[0, 0, 0, 0, 9 / 10, 1, 0, 0, 0, 0, 1 / 10, 1] :: real list"
  let ?g = "[0, 0, 0, 0, 0, 0, 0, 0, 9 / 10, 0, 0, 0] :: real list"
  let ?tr = "\<lparr>data = map Fin ?r, dims = [1, 2, 6]\<rparr>"
  let ?tg = "\<lparr>data = map Fin ?g, dims = [1, 6, 1, 2]\<rparr>"
  have order: "(0 :: real) \<le> 1 / 2" by simp
  have ur: "utility_layout ?tr (Rows 2 6)" and wr: "worker_layout ?tr (Rows 2 6)"
    and ug: "utility_layout ?tg (Grid 1 2)"
    by (simp_all add: well_formed_def)
  have vr: "data ?tr = map Fin ?r" and vg: "data ?tg = map Fin ?g" by simp_all
  have nr: "\<forall>s \<in> set (layout_slots (Rows 2 6)). 0 \<le> objectness ?r s" by code_simp
  have ng: "\<forall>s \<in> set (layout_slots (Grid 1 2)). 0 \<le> objectness ?g s" by code_simp
  note rows = detection_count[of 0 "1 / 2" ?tr "Fin 640" "Fin 640" "Fin 640" "Fin 640" ?r
      "Rows 2 6" 2 6]
  note grid = detection_count[of 0 "1 / 2" ?tg "Fin 640" "Fin 640" "Fin 640" "Fin 640" ?g
      "Grid 1 2" _ _ 1 2]
  from rows order have
    "length (processYoloOutput ?tr (Fin 640) (Fin 640) (Fin 640) (Fin 640) (Fin (1 / 2))) \<le>
     length (processYoloOutput ?tr (Fin 640) (Fin 640) (Fin 640) (Fin 640) (Fin 0))"
    by blast
  moreover from rows vr ur nr have
    "length (processYoloOutput ?tr (Fin 640) (Fin 640) (Fin 640) (Fin 640) (Fin 0)) = 2"
    by simp
  moreover from rows vr wr nr have
    "length (worker_processYoloOutput ?tr (Fin 640) (Fin 640) (Fin 640) (Fin 640) (Fin 0)) = 2"
    by simp
  moreover from grid vg ug ng have
    "length (processYoloOutput ?tg (Fin 640) (Fin 640) (Fin 640) (Fin 640) (Fin 0)) = 2"
    by simp
  ultimately show ?thesis using order ur wr ug by blast
qed

text \<open>
  Claim C7 as stated fails with the threshold 0 on a row of objectness \<open>-1\<close>: the tensor
  has one row and no detection is emitted.
\<close>

theorem negative_objectness_dropped_at_zero:
  "processYoloOutput \<lparr>data = map Fin [0, 0, 0, 0, - 1, 0], dims = [1, 1, 6]\<rparr>
     (Fin 640) (Fin 640) (Fin 640) (Fin 640) (Fin 0) = [] \<and>
   worker_processYoloOutput \<lparr>data = map Fin [0, 0, 0, 0, - 1, 0], dims = [1, 1, 6]\<rparr>
     (Fin 640) (Fin 640) (Fin 640) (Fin 640) (Fin 0) = [] \<and>
   dims \<lparr>data = map Fin [0, 0, 0, 0, - 1, 0], dims = [1, 1, 6]\<rparr> ! 1 = 1"
  by code_simp

section \<open>Errors of the decoder\<close>




section \<open>Values that are not finite\<close>

text \<open>
  Why the theorems about thresholds and scores ask for a buffer of finite values. A
  comparison with \<open>NaN\<close> is false, so the tests \<open>confidence < confidenceThreshold\<close> and
  \<open>score < confidenceThreshold\<close> of a row let a \<open>NaN\<close> objectness through, with the score
  \<open>NaN\<close>; and an infinite confidence passes \<open>confidence >= confidenceThreshold\<close> in
  the record heuristic, with an infinite score.
\<close>

lemma not_finite_values_pass:
  "worker_processYoloOutput \<lparr>data = [Fin 8, Fin 8, Fin 4, Fin 4, NaN, Fin 1], dims = [1, 1, 6]\<rparr>
     (Fin 640) (Fin 640) (Fin 640) (Fin 640) (Fin (1 / 2)) =
     [\<lparr>bbox = (Fin 6, Fin 6, Fin 4, Fin 4), score = NaN, class_id = Fin 0,
       class_name = Some ''birdnest''\<rparr>] \<and>
   processYoloOutput \<lparr>data = [Fin 8, Fin 8, Fin 4, Fin 4, NaN, Fin 1], dims = [1, 1, 6]\<rparr>
     (Fin 640) (Fin 640) (Fin 640) (Fin 640) (Fin (1 / 2)) =
     [\<lparr>bbox = (Fin 6, Fin 6, Fin 4, Fin 4), score = NaN, class_id = Fin 0,
       class_name = Some ''birdnest''\<rparr>] \<and>
   worker_processYoloOutput \<lparr>data = [Fin 8, Fin 8, Fin 4, Fin 4, PosInf, Fin 0], dims = [6]\<rparr>
     (Fin 640) (Fin 640) (Fin 640) (Fin 640) (Fin (1 / 2)) =
     [\<lparr>bbox = (Fin 6, Fin 6, Fin 4, Fin 4), score = PosInf, class_id = Fin 0,
       class_name = Some ''birdnest''\<rparr>] \<and>
   worker_processYoloOutput \<lparr>data = [Fin 8, Fin 8, Fin 4, Fin 4, NaN, Fin 0], dims = [6]\<rparr>
     (Fin 640) (Fin 640) (Fin 640) (Fin 640) (Fin (1 / 2)) = []"
  by code_simp

section \<open>The preprocessor's buffer\<close>

lemma fold_upt_invariant:
  assumes "I 0 s" and "\<And>i s. i < n \<Longrightarrow> I i s \<Longrightarrow> I (Suc i) (f i s)"
  shows "I n (fold f [0..<n] s)"
  using assms
proof (induction n)
  case 0
  then show ?case by simp
next
  case (Suc n)
  have "I n (fold f [0..<n] s)"
    using Suc.prems by (intro Suc.IH) auto
  then show ?case
    using Suc.prems(2)[of n] by simp
qed

lemma div_block: "a < P \<Longrightarrow> (c * P + a) div P = (c::nat)"
  by (cases "P = 0") simp_all

lemma mod_block: "a < P \<Longrightarrow> (c * P + a) mod P = (a::nat)"
  by simp

lemma write_pixel_updates:
  assumes "y < H" "x < W"
  shows "write_pixel px W H y x buf =
         buf[0 * H * W + y * W + x := pixel_value px (H * W) (0 * H * W + y * W + x),
             1 * H * W + y * W + x := pixel_value px (H * W) (1 * H * W + y * W + x),
             2 * H * W + y * W + x := pixel_value px (H * W) (2 * H * W + y * W + x)]"
proof -
  have lt: "y * W + x < H * W" using assms by (rule cell_lt)
  have "(c * H * W + y * W + x) mod (H * W) = y * W + x"
       "(c * H * W + y * W + x) div (H * W) = c" for c
    using lt by (simp_all add: add.assoc mult.assoc div_block)
  from this[of 0] this[of 1] this[of 2] show ?thesis
    by (simp add: write_pixel_def pixel_value_def Let_def add.assoc)
qed


lemma pixel_value_in_range:
  assumes "length px = 4 * P" "k < 3 * P"
  shows "pixel_value px P k = Fin (real (unat (px ! ((k mod P) * 4 + k div P))) / 255)"
proof -
  have P: "0 < P" using assms(2) by (cases P) simp_all
  have "k mod P < P" using P by simp
  moreover have "k div P < 3" using assms(2) P
    by (simp add: less_mult_imp_div_less mult.commute)
  ultimately have "(k mod P) * 4 + k div P < 4 * P" by linarith
  then show ?thesis
    using assms(1) by (simp add: pixel_value_def byte_at_def)
qed

lemma pixel_value_unit:
  assumes "length px = 4 * P" "k < 3 * P"
  shows "\<exists>r. pixel_value px P k = Fin r \<and> 0 \<le> r \<and> r \<le> 1"
proof -
  define n where "n = unat (px ! ((k mod P) * 4 + k div P))"
  have "n < 2 ^ LENGTH(8)"
    unfolding n_def by (rule unsigned_less)
  then have "n \<le> 255" by simp
  then have "real n \<le> 255" by simp
  then have "0 \<le> real n / 255" "real n / 255 \<le> 1" by simp_all
  moreover have "pixel_value px P k = Fin (real n / 255)"
    unfolding n_def by (rule pixel_value_in_range[OF assms])
  ultimately show ?thesis by blast
qed

lemma index_lt:
  assumes "ch < 3" "y < H" "x < W"
  shows "ch * H * W + y * W + x < 3 * (H * (W::nat))"
proof -
  have "y * W + x < H * W" using assms(2,3) by (rule cell_lt)
  moreover have "ch \<le> 2" using assms(1) by simp
  then have "ch * (H * W) \<le> 2 * (H * W)" by (rule mult_le_mono1)
  moreover have "ch * H * W + y * W + x = ch * (H * W) + (y * W + x)"
    by (simp add: mult.assoc)
  ultimately show ?thesis by linarith
qed

lemma pixel_inv_update:
  assumes "length px = 4 * P" "pixel_inv px P S buf" "k < 3 * P"
  shows "pixel_inv px P (insert k S) (buf[k := pixel_value px P k])"
proof -
  have len: "length buf = 3 * P" using assms(2) by (simp add: pixel_inv_def)
  have "\<exists>r. pixel_value px P k = Fin r \<and> 0 \<le> r \<and> r \<le> 1"
    by (rule pixel_value_unit[OF assms(1,3)])
  moreover have "set (buf[k := pixel_value px P k]) \<subseteq> insert (pixel_value px P k) (set buf)"
    by (rule set_update_subset_insert)
  ultimately have unit: "\<forall>v \<in> set (buf[k := pixel_value px P k]). \<exists>r. v = Fin r \<and> 0 \<le> r \<and> r \<le> 1"
    using assms(2) unfolding pixel_inv_def by blast
  have "(buf[k := pixel_value px P k]) ! j = pixel_value px P j" if "j \<in> insert k S" for j
  proof (cases "j = k")
    case True
    then show ?thesis using len assms(3) by simp
  next
    case False
    then show ?thesis using that assms(2) by (simp add: pixel_inv_def)
  qed
  then show ?thesis
    using len unit by (simp add: pixel_inv_def)
qed

lemma pixel_inv_mono:
  "pixel_inv px P S buf \<Longrightarrow> T \<subseteq> S \<Longrightarrow> pixel_inv px P T buf"
  unfolding pixel_inv_def by blast

lemma pixel_inv_write:
  assumes "length px = 4 * (H * W)" "pixel_inv px (H * W) S buf" "y < H" "x < W"
  shows "pixel_inv px (H * W) (S \<union> {ch * H * W + y * W + x |ch. ch < 3})
           (write_pixel px W H y x buf)"
proof -
  let ?i = "\<lambda>ch. ch * H * W + y * W + x"
  let ?g = "pixel_value px (H * W)"
  have lt: "?i ch < 3 * (H * W)" if "ch < 3" for ch
    using that assms(3,4) by (rule index_lt)
  have 0: "pixel_inv px (H * W) (insert (?i 0) S) (buf[?i 0 := ?g (?i 0)])"
    using pixel_inv_update[OF assms(1,2), of "?i 0"] lt[of 0] by simp
  have 1: "pixel_inv px (H * W) (insert (?i 1) (insert (?i 0) S))
             (buf[?i 0 := ?g (?i 0), ?i 1 := ?g (?i 1)])"
    using pixel_inv_update[OF assms(1) 0, of "?i 1"] lt[of 1] by simp
  have 2: "pixel_inv px (H * W) (insert (?i 2) (insert (?i 1) (insert (?i 0) S)))
             (buf[?i 0 := ?g (?i 0), ?i 1 := ?g (?i 1), ?i 2 := ?g (?i 2)])"
    using pixel_inv_update[OF assms(1) 1, of "?i 2"] lt[of 2] by simp
  have "S \<union> {?i ch |ch. ch < 3} \<subseteq> insert (?i 2) (insert (?i 1) (insert (?i 0) S))"
  proof
    fix k assume "k \<in> S \<union> {?i ch |ch. ch < 3}"
    then consider "k \<in> S" | ch where "ch < 3" "k = ?i ch" by blast
    then show "k \<in> insert (?i 2) (insert (?i 1) (insert (?i 0) S))"
    proof cases
      case 1
      then show ?thesis by simp
    next
      case 2
      from 2(1) have "ch = 0 \<or> ch = 1 \<or> ch = 2" by linarith
      with 2(2) show ?thesis by blast
    qed
  qed
  from pixel_inv_mono[OF 2 this] show ?thesis
    by (simp only: write_pixel_updates[OF assms(3,4)])
qed

lemma pixel_inv_row:
  assumes "length px = 4 * (H * W)" "pixel_inv px (H * W) S buf" "y < H"
  shows "pixel_inv px (H * W) (S \<union> {ch * H * W + y * W + x |ch x. ch < 3 \<and> x < W})
           (for_loop 0 W (write_pixel px W H y) buf)"
proof -
  let ?I = "\<lambda>n. pixel_inv px (H * W) (S \<union> {ch * H * W + y * W + x |ch x. ch < 3 \<and> x < n})"
  have "?I W (fold (write_pixel px W H y) [0..<W] buf)"
  proof (rule fold_upt_invariant[where I = ?I])
    show "?I 0 buf" using assms(2) by simp
  next
    fix n s
    assume n: "n < W" and s: "?I n s"
    have "S \<union> {ch * H * W + y * W + x |ch x. ch < 3 \<and> x < Suc n} \<subseteq>
          (S \<union> {ch * H * W + y * W + x |ch x. ch < 3 \<and> x < n}) \<union>
          {ch * H * W + y * W + n |ch. ch < 3}"
    proof
      fix k assume "k \<in> S \<union> {ch * H * W + y * W + x |ch x. ch < 3 \<and> x < Suc n}"
      then consider "k \<in> S" | ch x where "ch < 3" "x < Suc n" "k = ch * H * W + y * W + x"
        by blast
      then show "k \<in> (S \<union> {ch * H * W + y * W + x |ch x. ch < 3 \<and> x < n}) \<union>
          {ch * H * W + y * W + n |ch. ch < 3}"
      proof cases
        case 1
        then show ?thesis by simp
      next
        case 2
        from 2(2) have "x < n \<or> x = n" by linarith
        with 2(1,3) show ?thesis by blast
      qed
    qed
    from pixel_inv_mono[OF pixel_inv_write[OF assms(1) s assms(3) n] this]
    show "?I (Suc n) (write_pixel px W H y n s)" .
  qed
  then show ?thesis by (simp only: for_loop_fold)
qed

lemma pixel_inv_rows:
  assumes "length px = 4 * (H * W)" "pixel_inv px (H * W) {} buf"
  shows "pixel_inv px (H * W) {ch * H * W + y * W + x |ch y x. ch < 3 \<and> y < H \<and> x < W}
           (for_loop 0 H (\<lambda>y. for_loop 0 W (write_pixel px W H y)) buf)"
proof -
  let ?I = "\<lambda>m. pixel_inv px (H * W) {ch * H * W + y * W + x |ch y x. ch < 3 \<and> y < m \<and> x < W}"
  have "?I H (fold (\<lambda>y. for_loop 0 W (write_pixel px W H y)) [0..<H] buf)"
  proof (rule fold_upt_invariant[where I = ?I])
    show "?I 0 buf" using assms(2) by simp
  next
    fix m s
    assume m: "m < H" and s: "?I m s"
    have "{ch * H * W + y * W + x |ch y x. ch < 3 \<and> y < Suc m \<and> x < W} \<subseteq>
          {ch * H * W + y * W + x |ch y x. ch < 3 \<and> y < m \<and> x < W} \<union>
          {ch * H * W + m * W + x |ch x. ch < 3 \<and> x < W}"
    proof
      fix k assume "k \<in> {ch * H * W + y * W + x |ch y x. ch < 3 \<and> y < Suc m \<and> x < W}"
      then obtain ch y x where *: "ch < 3" "y < Suc m" "x < W" "k = ch * H * W + y * W + x"
        by blast
      from *(2) have "y < m \<or> y = m" by linarith
      with *(1,3,4) show "k \<in> {ch * H * W + y * W + x |ch y x. ch < 3 \<and> y < m \<and> x < W} \<union>
          {ch * H * W + m * W + x |ch x. ch < 3 \<and> x < W}" by blast
    qed
    from pixel_inv_mono[OF pixel_inv_row[OF assms(1) s m] this]
    show "?I (Suc m) (for_loop 0 W (write_pixel px W H m) s)" .
  qed
  then show ?thesis by (simp only: for_loop_fold)
qed


lemma index_cover:
  assumes "k < 3 * (H * (W :: nat))"
  shows "\<exists>ch y x. ch < 3 \<and> y < H \<and> x < W \<and> k = ch * H * W + y * W + x"
proof -
  have P: "0 < H * W" using assms by (cases "H * W") simp_all
  then have W: "0 < W" by simp
  let ?r = "k mod (H * W)"
  have r: "?r < H * W" using P by simp
  have "k div (H * W) < 3"
    using assms P by (simp add: less_mult_imp_div_less mult.commute)
  moreover have "?r div W < H"
    using r by (simp add: less_mult_imp_div_less)
  moreover have "?r mod W < W" using W by simp
  moreover have "k = (k div (H * W)) * H * W + (?r div W) * W + ?r mod W"
  proof -
    have "(k div (H * W)) * H * W + (?r div W) * W + ?r mod W =
          (k div (H * W)) * (H * W) + ((?r div W) * W + ?r mod W)"
      by (simp only: mult.assoc add.assoc)
    also have "(?r div W) * W + ?r mod W = ?r" by (rule div_mult_mod_eq)
    also have "(k div (H * W)) * (H * W) + ?r = k" by (rule div_mult_mod_eq)
    finally show ?thesis by simp
  qed
  ultimately show ?thesis by blast
qed

lemma pixel_inv_init: "pixel_inv px P {} (replicate (3 * P) (Fin 0))"
  by (simp add: pixel_inv_def)

text \<open>
  Claim C6. When the image loads and the canvas gives its context, and the canvas
  returns the \<open>4 * modelWidth * modelHeight\<close> bytes of its contract, \<open>preprocessImage\<close>
  returns a buffer of length \<open>3 * modelHeight * modelWidth\<close> whose elements all lie in
  \<open>[0, 1]\<close>; the element of channel \<open>ch\<close>, row \<open>y\<close>, column \<open>x\<close> is at index
  \<open>ch * modelHeight * modelWidth + y * modelWidth + x\<close> and is byte \<open>ch\<close> of the pixel
  divided by 255. Every element \<open>k\<close> of the buffer is such a value, of plane
  \<open>k div (modelHeight * modelWidth)\<close>, which is 0, 1 or 2: all red values come before
  all green values before all blue values, and the alpha byte, at offset 3, is used
  nowhere. The result records the model's size and the natural size of the source image.
\<close>

theorem preprocess_tensor:
  assumes "length (imagePixels img W H) = 4 * W * H"
  shows "\<exists>p. preprocessImage (Loaded img) True W H = Inr p \<and>
           length (tensor p) = 3 * H * W \<and>
           (\<forall>v \<in> set (tensor p). \<exists>r. v = Fin r \<and> 0 \<le> r \<and> r \<le> 1) \<and>
           (\<forall>ch<3. \<forall>y<H. \<forall>x<W.
              tensor p ! (ch * H * W + y * W + x) =
              Fin (real (unat (imagePixels img W H ! ((y * W + x) * 4 + ch))) / 255)) \<and>
           (\<forall>k < 3 * H * W.
              tensor p ! k =
              Fin (real (unat (imagePixels img W H ! ((k mod (H * W)) * 4 + k div (H * W)))) / 255)) \<and>
           width p = W \<and> height p = H \<and>
           originalWidth p = naturalWidth img \<and> originalHeight p = naturalHeight img"
proof -
  let ?px = "imagePixels img W H"
  let ?buf = "for_loop 0 H (\<lambda>y. for_loop 0 W (write_pixel ?px W H y))
                (replicate (3 * H * W) (Fin 0))"
  let ?S = "{ch * H * W + y * W + x |ch y x. ch < 3 \<and> y < H \<and> x < W}"
  have len: "length ?px = 4 * (H * W)" using assms by (simp add: mult.assoc)
  have "pixel_inv ?px (H * W) {} (replicate (3 * (H * W)) (Fin 0))"
    by (rule pixel_inv_init)
  from pixel_inv_rows[OF len this]
  have inv: "pixel_inv ?px (H * W) ?S ?buf" by (simp only: mult.assoc)
  have entry: "?buf ! (ch * H * W + y * W + x) =
               Fin (real (unat (?px ! ((y * W + x) * 4 + ch))) / 255)"
    if "ch < 3" "y < H" "x < W" for ch y x
  proof -
    let ?k = "ch * H * W + y * W + x"
    have cell: "y * W + x < H * W" using that(2,3) by (rule cell_lt)
    have k: "?k = ch * (H * W) + (y * W + x)" by (simp add: mult.assoc)
    have "?k \<in> ?S" using that by blast
    then have "?buf ! ?k = pixel_value ?px (H * W) ?k"
      using inv unfolding pixel_inv_def by blast
    also have "\<dots> = Fin (real (unat (?px ! ((?k mod (H * W)) * 4 + ?k div (H * W)))) / 255)"
      using len index_lt[OF that] by (rule pixel_value_in_range)
    also have "?k mod (H * W) = y * W + x"
      unfolding k using cell by (rule mod_block)
    also have "?k div (H * W) = ch"
      unfolding k using cell by (rule div_block)
    finally show ?thesis .
  qed
  have every: "?buf ! k =
               Fin (real (unat (?px ! ((k mod (H * W)) * 4 + k div (H * W)))) / 255)"
    if "k < 3 * H * W" for k
  proof -
    have k: "k < 3 * (H * W)" using that by (simp add: mult.assoc)
    from index_cover[OF k] have "k \<in> ?S" by blast
    then have "?buf ! k = pixel_value ?px (H * W) k"
      using inv unfolding pixel_inv_def by blast
    also have "\<dots> = Fin (real (unat (?px ! ((k mod (H * W)) * 4 + k div (H * W)))) / 255)"
      using len k by (rule pixel_value_in_range)
    finally show ?thesis .
  qed
  have "preprocessImage (Loaded img) True W H =
        Inr \<lparr>tensor = ?buf, width = W, height = H,
             originalWidth = naturalWidth img, originalHeight = naturalHeight img\<rparr>"
    by (simp add: preprocessImage_def Let_def)
  moreover have "length ?buf = 3 * H * W"
    using inv by (simp add: pixel_inv_def mult.assoc)
  moreover have "\<forall>v \<in> set ?buf. \<exists>r. v = Fin r \<and> 0 \<le> r \<and> r \<le> 1"
    using inv unfolding pixel_inv_def by blast
  ultimately show ?thesis
    using entry every by simp
qed

theorem preprocess_tensor_witness:
  "length (imagePixels \<lparr>naturalWidth = 10, naturalHeight = 20,
             imagePixels = (\<lambda>w h. [255, 0, 51, 255, 0, 255, 102, 255])\<rparr> 2 1) = 4 * 2 * 1 \<and>
   preprocessImage (Loaded \<lparr>naturalWidth = 10, naturalHeight = 20,
             imagePixels = (\<lambda>w h. [255, 0, 51, 255, 0, 255, 102, 255])\<rparr>) True 2 1 =
   Inr \<lparr>tensor = [Fin 1, Fin 0, Fin 0, Fin 1, Fin (1 / 5), Fin (2 / 5)],
        width = 2, height = 1, originalWidth = 10, originalHeight = 20\<rparr>"
proof -
  let ?img = "\<lparr>naturalWidth = 10, naturalHeight = 20,
               imagePixels = (\<lambda>w h. [255, 0, 51, 255, 0, 255, 102, 255 :: byte])\<rparr>"
  have canvas: "length (imagePixels ?img 2 1) = 4 * 2 * 1" by simp
  from preprocess_tensor[OF canvas]
  obtain p where p: "preprocessImage (Loaded ?img) True 2 1 = Inr p"
    and len: "length (tensor p) = 3 * 1 * 2"
    and entries: "\<forall>ch<3. \<forall>y<1. \<forall>x<2.
              tensor p ! (ch * 1 * 2 + y * 2 + x) =
              Fin (real (unat (imagePixels ?img 2 1 ! ((y * 2 + x) * 4 + ch))) / 255)"
    and meta: "width p = 2" "height p = 1" "originalWidth p = 10" "originalHeight p = 20"
    by auto
  have "tensor p ! 0 = Fin 1" using entries[rule_format, of 0 0 0] by simp
  moreover have "tensor p ! 1 = Fin 0" using entries[rule_format, of 0 0 1] by simp
  moreover have "tensor p ! 2 = Fin 0" using entries[rule_format, of 1 0 0] by simp
  moreover have "tensor p ! 3 = Fin 1" using entries[rule_format, of 1 0 1] by simp
  moreover have "tensor p ! 4 = Fin (1 / 5)" using entries[rule_format, of 2 0 0] by simp
  moreover have "tensor p ! 5 = Fin (2 / 5)" using entries[rule_format, of 2 0 1] by simp
  ultimately have "tensor p = [Fin 1, Fin 0, Fin 0, Fin 1, Fin (1 / 5), Fin (2 / 5)]"
    using len by (intro nth_equalityI) (auto simp: less_Suc_eq numeral_eq_Suc)
  with meta have "p = \<lparr>tensor = [Fin 1, Fin 0, Fin 0, Fin 1, Fin (1 / 5), Fin (2 / 5)],
        width = 2, height = 1, originalWidth = 10, originalHeight = 20\<rparr>"
    by (cases p) simp
  with p canvas show ?thesis by simp
qed

section \<open>The worker before a model is loaded\<close>

lemma onmessage_no_session:
  assumes "msg_type ev = ''RUN_INFERENCE''"
  shows "onmessage create None ev = (None, ERROR ''Model is not loaded'')"
  using assms by (simp add: onmessage_def)

lemma onmessage_session_set:
  assumes "onmessage create None ev = (Some s, reply)"
  shows "reply = MODEL_LOADED"
  using assms
  by (auto simp: onmessage_def Let_def split: if_splits option.splits sum.splits)

lemma handle_all_append:
  "handle_all create session (evs @ [ev]) =
     (let (session', replies) = handle_all create session evs;
          (final, reply) = onmessage create session' ev
      in (final, replies @ [reply]))"
  by (induction evs arbitrary: session) (simp_all add: Let_def split: prod.splits)

lemma handle_all_not_loaded:
  assumes "MODEL_LOADED \<notin> set (snd (handle_all create None evs))"
  shows "fst (handle_all create None evs) = None"
  using assms
proof (induction evs rule: rev_induct)
  case Nil
  then show ?case by simp
next
  case (snoc ev evs)
  obtain s replies where h: "handle_all create None evs = (s, replies)"
    by (cases "handle_all create None evs")
  obtain final reply where o: "onmessage create s ev = (final, reply)"
    by (cases "onmessage create s ev")
  from snoc.prems h o have no: "MODEL_LOADED \<notin> set replies" "reply \<noteq> MODEL_LOADED"
    by (auto simp: handle_all_append)
  with snoc.IH h have s: "s = None" by simp
  have "final = None"
  proof (cases final)
    case None
    then show ?thesis .
  next
    case (Some x)
    with o s onmessage_session_set[of create ev x reply] no(2) show ?thesis by simp
  qed
  with h o show ?case by (simp add: handle_all_append)
qed

text \<open>
  Claim C9. From the start of the worker (no session), after any messages none of which
  was answered by \<open>MODEL_LOADED\<close>, that is, while no load has completed, a
  \<open>RUN_INFERENCE\<close> request is answered by the \<open>ERROR\<close> message "Model is not loaded",
  the worker's not-ready error; the reply is not an \<open>INFERENCE_RESULT\<close>, and the worker
  still holds no session afterwards.
\<close>

theorem run_inference_before_load:
  assumes "MODEL_LOADED \<notin> set (snd (handle_all create None evs))"
    and "msg_type ev = ''RUN_INFERENCE''"
  shows "handle_all create None (evs @ [ev]) =
         (None, snd (handle_all create None evs) @ [ERROR ''Model is not loaded''])"
proof -
  obtain s replies where h: "handle_all create None evs = (s, replies)"
    by (cases "handle_all create None evs")
  with handle_all_not_loaded[OF assms(1)] have "s = None" by simp
  with h onmessage_no_session[OF assms(2), of create] show ?thesis
    by (simp add: handle_all_append)
qed

theorem run_inference_before_load_witness:
  "MODEL_LOADED \<notin> set (snd (handle_all (\<lambda>url. Inl ''no such model'') None
     [\<lparr>msg_type = ''LOAD_MODEL'', modelUrl = Some ''/models/birdnest.onnx'', imageData = None,
       confidenceThreshold = Undefined, iouThreshold = Undefined\<rparr>])) \<and>
   handle_all (\<lambda>url. Inl ''no such model'') None
     [\<lparr>msg_type = ''LOAD_MODEL'', modelUrl = Some ''/models/birdnest.onnx'', imageData = None,
       confidenceThreshold = Undefined, iouThreshold = Undefined\<rparr>,
      \<lparr>msg_type = ''RUN_INFERENCE'', modelUrl = None, imageData = None,
       confidenceThreshold = Fin (1 / 2), iouThreshold = Undefined\<rparr>] =
   (None, [ERROR ''no such model'', ERROR ''Model is not loaded''])"
proof -
  let ?create = "\<lambda>url :: string. Inl ''no such model'' :: string + InferenceSession"
  let ?load = "\<lparr>msg_type = ''LOAD_MODEL'', modelUrl = Some ''/models/birdnest.onnx'',
                imageData = None, confidenceThreshold = Undefined, iouThreshold = Undefined\<rparr>"
  let ?run = "\<lparr>msg_type = ''RUN_INFERENCE'', modelUrl = None, imageData = None,
               confidenceThreshold = Fin (1 / 2), iouThreshold = Undefined\<rparr>"
  have before: "handle_all ?create None [?load] = (None, [ERROR ''no such model''])"
    by (simp add: onmessage_def)
  then have pre: "MODEL_LOADED \<notin> set (snd (handle_all ?create None [?load]))"
    by simp
  have kind: "msg_type ?run = ''RUN_INFERENCE''" by simp
  from run_inference_before_load[OF pre kind] before pre show ?thesis
    by simp
qed

end
